theory Spec2Isabelle
  imports Main
begin

unbundle bit_operations_syntax

section \<open>Python values and exceptions\<close>

text \<open>
  The exceptions the decoder can raise.  No function of \<open>eep.py\<close> catches any of them after
  the catalog is loaded, so each one leaves the call that raised it.  \<open>NotModelled\<close> is not a
  Python exception: it marks input of a library routine (\<open>str.format\<close>, \<open>int(s, 2)\<close>) that
  lies outside the part of the routine written out below.
\<close>

datatype error =
    ValueError
  | TypeError
  | IndexError
  | AttributeError
  | KeyError
  | ZeroDivisionError
  | OverflowError
  | NotModelled

subsection \<open>Rendering an integer: \<open>'%s' % n\<close>\<close>

definition digit_char :: "nat \<Rightarrow> char" where
  "digit_char n = ''0123456789'' ! (n mod 10)"

fun str_nat :: "nat \<Rightarrow> string" where
  "str_nat n = (if n < 10 then [digit_char n] else str_nat (n div 10) @ [digit_char (n mod 10)])"

declare str_nat.simps [simp del]

definition py_str :: "int \<Rightarrow> string" where
  "py_str i = (if i < 0 then CHR ''-'' # str_nat (nat (- i)) else str_nat (nat i))"

subsection \<open>Parsing an integer: \<open>int(s)\<close>\<close>

text \<open>
  \<open>int(s)\<close> strips white space, reads an optional sign and then decimal digits, which single
  underscores may separate.  Characters are taken as code points below 256; the white space
  among them is tab to carriage return, space, next line and no-break space.
\<close>

definition is_space :: "char \<Rightarrow> bool" where
  "is_space c = List.member [9, 10, 11, 12, 13, 32, 133, 160] (of_char c :: nat)"

definition is_digit :: "char \<Rightarrow> bool" where
  "is_digit c = (48 \<le> (of_char c :: nat) \<and> (of_char c :: nat) \<le> 57)"

definition digit_val :: "char \<Rightarrow> int" where
  "digit_val c = of_char c - 48"

definition strip :: "string \<Rightarrow> string" where
  "strip s = dropWhile is_space (rev (dropWhile is_space (rev s)))"

fun py_digits :: "int \<Rightarrow> bool \<Rightarrow> string \<Rightarrow> int option" where
  "py_digits acc prev [] = (if prev then Some acc else None)"
| "py_digits acc prev (c # cs) =
     (if is_digit c then py_digits (10 * acc + digit_val c) True cs
      else if c = CHR ''_'' \<and> prev then py_digits acc False cs
      else None)"

definition py_int :: "string \<Rightarrow> error + int" where
  "py_int s =
     (case strip s of
        [] \<Rightarrow> Inl ValueError
      | c # cs \<Rightarrow>
          (if c = CHR ''-'' then
             (case py_digits 0 False cs of None \<Rightarrow> Inl ValueError | Some n \<Rightarrow> Inr (- n))
           else if c = CHR ''+'' then
             (case py_digits 0 False cs of None \<Rightarrow> Inl ValueError | Some n \<Rightarrow> Inr n)
           else
             (case py_digits 0 False (c # cs) of None \<Rightarrow> Inl ValueError | Some n \<Rightarrow> Inr n)))"

subsection \<open>Floats\<close>

text \<open>
  A Python float is an IEEE 754 binary64 number.  \<open>Finite m e\<close> stands for \<open>m * 2 ^ e\<close> written
  the way the format stores it: \<open>2 ^ 52 \<le> \<bar>m\<bar> < 2 ^ 53\<close> with \<open>- 1074 \<le> e \<le> 971\<close>, or a smaller
  \<open>\<bar>m\<bar>\<close> with \<open>e = - 1074\<close> (subnormal numbers and zero).  The sign of a zero is dropped: it
  shows in no comparison and in no result below, a division by either zero being an error.
  Every operation computes the exact result and rounds it to the nearest float, a tie going
  to the even significand; a result of \<open>2 ^ 1024\<close> or more is an infinity.  A sum with a zero
  operand is the other operand, which is that rounding without the arithmetic.
\<close>

datatype pyfloat = Finite int int | PosInf | NegInf | NaN

function bit_length :: "int \<Rightarrow> int" where
  "bit_length n = (if n \<le> 0 then 0 else 1 + bit_length (n div 2))"
  by pat_completeness auto
termination
  by (relation "measure nat") auto

declare bit_length.simps [simp del]

text \<open>\<open>floor_log2 p q\<close> is the integer \<open>k\<close> with \<open>2 ^ k \<le> p / q < 2 ^ (k + 1)\<close>, for positive \<open>p\<close>, \<open>q\<close>.\<close>

definition floor_log2 :: "int \<Rightarrow> int \<Rightarrow> int" where
  "floor_log2 p q =
     (let k = bit_length p - bit_length q
      in if (if 0 \<le> k then q * 2 ^ nat k \<le> p else q \<le> p * 2 ^ nat (- k)) then k else k - 1)"

definition round_half_even :: "int \<Rightarrow> int \<Rightarrow> int" where
  "round_half_even n d =
     (let q = n div d; r = n mod d
      in if 2 * r < d then q else if d < 2 * r then q + 1 else if even q then q else q + 1)"

definition round_to_double :: "bool \<Rightarrow> int \<Rightarrow> int \<Rightarrow> pyfloat" where
  "round_to_double negative p q =
     (if p = 0 then Finite 0 (- 1074)
      else
        let ex = max (floor_log2 p q - 52) (- 1074);
            n = (if 0 \<le> ex then round_half_even p (q * 2 ^ nat ex)
                 else round_half_even (p * 2 ^ nat (- ex)) q);
            ex' = (if n = 2 ^ 53 then ex + 1 else ex);
            n' = (if n = 2 ^ 53 then 2 ^ 52 else n)
        in if 971 < ex' then (if negative then NegInf else PosInf)
           else Finite (if negative then - n' else n') ex')"

text \<open>The float nearest to \<open>s * 2 ^ e\<close>.\<close>

definition round_scaled :: "int \<Rightarrow> int \<Rightarrow> pyfloat" where
  "round_scaled s e =
     round_to_double (s < 0) (\<bar>s\<bar> * 2 ^ nat (max e 0)) (2 ^ nat (max (- e) 0))"

fun fneg :: "pyfloat \<Rightarrow> pyfloat" where
  "fneg (Finite m e) = Finite (- m) e"
| "fneg PosInf = NegInf"
| "fneg NegInf = PosInf"
| "fneg NaN = NaN"

fun fadd :: "pyfloat \<Rightarrow> pyfloat \<Rightarrow> pyfloat" where
  "fadd NaN y = NaN"
| "fadd x NaN = NaN"
| "fadd PosInf NegInf = NaN"
| "fadd NegInf PosInf = NaN"
| "fadd PosInf y = PosInf"
| "fadd NegInf y = NegInf"
| "fadd x PosInf = PosInf"
| "fadd x NegInf = NegInf"
| "fadd (Finite m1 e1) (Finite m2 e2) =
     (if m1 = 0 then Finite m2 e2
      else if m2 = 0 then Finite m1 e1
      else let e = min e1 e2 in round_scaled (m1 * 2 ^ nat (e1 - e) + m2 * 2 ^ nat (e2 - e)) e)"

definition fsub :: "pyfloat \<Rightarrow> pyfloat \<Rightarrow> pyfloat" where
  "fsub x y = fadd x (fneg y)"

fun is_negative :: "pyfloat \<Rightarrow> bool" where
  "is_negative (Finite m e) = (m < 0)"
| "is_negative NegInf = True"
| "is_negative x = False"

definition signed_inf :: "bool \<Rightarrow> pyfloat" where
  "signed_inf negative = (if negative then NegInf else PosInf)"

fun fmul :: "pyfloat \<Rightarrow> pyfloat \<Rightarrow> pyfloat" where
  "fmul NaN y = NaN"
| "fmul x NaN = NaN"
| "fmul (Finite m1 e1) (Finite m2 e2) = round_scaled (m1 * m2) (e1 + e2)"
| "fmul (Finite m e) y = (if m = 0 then NaN else signed_inf ((m < 0) \<noteq> is_negative y))"
| "fmul x (Finite m e) = (if m = 0 then NaN else signed_inf (is_negative x \<noteq> (m < 0)))"
| "fmul x y = signed_inf (is_negative x \<noteq> is_negative y)"

text \<open>Python raises \<open>ZeroDivisionError\<close> for a zero divisor, whatever the dividend.\<close>

fun fdiv :: "pyfloat \<Rightarrow> pyfloat \<Rightarrow> error + pyfloat" where
  "fdiv x (Finite m2 e2) =
     (if m2 = 0 then Inl ZeroDivisionError
      else case x of
        Finite m1 e1 \<Rightarrow>
          Inr (round_to_double ((m1 < 0) \<noteq> (m2 < 0))
                 (\<bar>m1\<bar> * 2 ^ nat (max (e1 - e2) 0)) (\<bar>m2\<bar> * 2 ^ nat (max (e2 - e1) 0)))
      | NaN \<Rightarrow> Inr NaN
      | _ \<Rightarrow> Inr (signed_inf (is_negative x \<noteq> (m2 < 0))))"
| "fdiv NaN y = Inr NaN"
| "fdiv x NaN = Inr NaN"
| "fdiv (Finite m1 e1) y = Inr (Finite 0 (- 1074))"
| "fdiv x y = Inr NaN"

text \<open>An integer operand of a float operation is converted first; too large a one raises.\<close>

definition float_of_int :: "int \<Rightarrow> error + pyfloat" where
  "float_of_int i =
     (case round_to_double (i < 0) \<bar>i\<bar> 1 of
        Finite m e \<Rightarrow> Inr (Finite m e)
      | _ \<Rightarrow> Inl OverflowError)"

subsection \<open>Parsing a float: \<open>float(s)\<close>\<close>

text \<open>
  \<open>float(s)\<close> strips white space and reads an optional sign, then \<open>inf\<close>, \<open>infinity\<close> or \<open>nan\<close> in
  any case, or a decimal number: digits with an optional point and an optional exponent,
  single underscores allowed between digits.  The result is the float nearest to the number.
\<close>

definition lower :: "string \<Rightarrow> string" where
  "lower s = map (\<lambda>c. if 65 \<le> (of_char c :: nat) \<and> (of_char c :: nat) \<le> 90
                       then char_of ((of_char c :: nat) + 32) else c) s"

definition digit_or_underscore :: "char \<Rightarrow> bool" where
  "digit_or_underscore c = (is_digit c \<or> c = CHR ''_'')"

definition digits_value :: "string \<Rightarrow> int" where
  "digits_value ds = foldl (\<lambda>acc c. 10 * acc + digit_val c) 0 (filter is_digit ds)"

definition valid_digitpart :: "string \<Rightarrow> bool" where
  "valid_digitpart ds = (py_digits 0 False ds \<noteq> None)"

text \<open>The exponent part: nothing, or \<open>e\<close> or \<open>E\<close>, an optional sign and digits.\<close>

definition parse_exponent :: "string \<Rightarrow> int option" where
  "parse_exponent s =
     (case s of
        [] \<Rightarrow> Some 0
      | c # cs \<Rightarrow>
          (if c = CHR ''e'' \<or> c = CHR ''E'' then
             (case cs of
                [] \<Rightarrow> None
              | d # ds \<Rightarrow>
                  (if d = CHR ''-'' then map_option uminus (py_digits 0 False ds)
                   else if d = CHR ''+'' then py_digits 0 False ds
                   else py_digits 0 False cs))
           else None))"

text \<open>A decimal number as \<open>(mantissa, exponent of ten)\<close>.\<close>

definition parse_number :: "string \<Rightarrow> (int \<times> int) option" where
  "parse_number s =
     (let ip = takeWhile digit_or_underscore s;
          r1 = dropWhile digit_or_underscore s;
          has_dot = (r1 \<noteq> [] \<and> hd r1 = CHR ''.'');
          r2 = (if has_dot then tl r1 else r1);
          fp = (if has_dot then takeWhile digit_or_underscore r2 else []);
          r3 = (if has_dot then dropWhile digit_or_underscore r2 else r2)
      in if (ip = [] \<and> fp = []) \<or> (ip \<noteq> [] \<and> \<not> valid_digitpart ip)
            \<or> (fp \<noteq> [] \<and> \<not> valid_digitpart fp)
         then None
         else map_option
                (\<lambda>ex. (digits_value (ip @ fp), ex - int (length (filter is_digit fp))))
                (parse_exponent r3))"

definition py_float_unsigned :: "bool \<Rightarrow> string \<Rightarrow> error + pyfloat" where
  "py_float_unsigned negative body =
     (if lower body = ''inf'' \<or> lower body = ''infinity'' then Inr (signed_inf negative)
      else if lower body = ''nan'' then Inr NaN
      else case parse_number body of
        None \<Rightarrow> Inl ValueError
      | Some (mantissa, ex) \<Rightarrow>
          Inr (round_to_double negative (mantissa * 10 ^ nat (max ex 0)) (10 ^ nat (max (- ex) 0))))"

definition py_float :: "string \<Rightarrow> error + pyfloat" where
  "py_float s =
     (case strip s of
        [] \<Rightarrow> Inl ValueError
      | c # cs \<Rightarrow>
          (if c = CHR ''-'' then py_float_unsigned True cs
           else if c = CHR ''+'' then py_float_unsigned False cs
           else py_float_unsigned False (c # cs)))"

subsection \<open>Formatting: \<open>s.format(value=n)\<close>\<close>

text \<open>
  \<open>{{\<close> and \<open>}}\<close> stand for a brace, \<open>{value}\<close> for the number.  A field without a name or with
  a number for a name asks for a positional argument (\<open>IndexError\<close>), another name for a
  keyword that was not given (\<open>KeyError\<close>), and a brace without its partner or inside a
  field name is a \<open>ValueError\<close>.  Conversions, format specifications, attribute and index
  lookups inside a field are not written out.
\<close>

definition field_text :: "string \<Rightarrow> int \<Rightarrow> error + string" where
  "field_text name n =
     (if name = ''value'' then Inr (py_str n)
      else if list_ex (\<lambda>c. List.member ''!:.[]'' c) name then Inl NotModelled
      else if List.member name (CHR ''{'') then Inl ValueError
      else if list_all is_digit name then Inl IndexError
      else Inl KeyError)"

fun format_text :: "string \<Rightarrow> int \<Rightarrow> error + string"
  and format_field :: "string \<Rightarrow> string \<Rightarrow> int \<Rightarrow> error + string" where
  "format_text [] n = Inr []"
| "format_text [c] n = (if c = CHR ''{'' \<or> c = CHR ''}'' then Inl ValueError else Inr [c])"
| "format_text (c # d # cs) n =
     (if c = CHR ''{'' then
        (if d = CHR ''{'' then map_sum id ((#) c) (format_text cs n)
         else format_field [] (d # cs) n)
      else if c = CHR ''}'' then
        (if d = CHR ''}'' then map_sum id ((#) c) (format_text cs n) else Inl ValueError)
      else map_sum id ((#) c) (format_text (d # cs) n))"
| "format_field name [] n = Inl ValueError"
| "format_field name (c # cs) n =
     (if c = CHR ''}'' then
        (case field_text name n of
           Inl e \<Rightarrow> Inl e
         | Inr t \<Rightarrow> map_sum id ((@) t) (format_text cs n))
      else format_field (name @ [c]) cs n)"

definition py_format :: "string \<Rightarrow> int \<Rightarrow> error + string" where
  "py_format s n = format_text s n"

subsection \<open>Lists: slices and item assignment\<close>

text \<open>
  \<open>xs[start:stop]\<close> never raises: a negative bound counts from the end, and both bounds are
  clipped to the list.  \<open>xs[i] = v\<close> raises \<open>IndexError\<close> outside the list, a negative index
  counting from the end.
\<close>

definition slice_bound :: "nat \<Rightarrow> int \<Rightarrow> nat" where
  "slice_bound n i = (if i < 0 then nat (max (i + int n) 0) else min (nat i) n)"

definition py_slice :: "'a list \<Rightarrow> int \<Rightarrow> int \<Rightarrow> 'a list" where
  "py_slice xs start stop =
     (let a = slice_bound (length xs) start; b = slice_bound (length xs) stop
      in take (b - a) (drop a xs))"

definition py_setitem :: "'a list \<Rightarrow> int \<Rightarrow> 'a \<Rightarrow> error + 'a list" where
  "py_setitem xs i v =
     (let j = (if i < 0 then i + int (length xs) else i)
      in if 0 \<le> j \<and> j < int (length xs) then Inr (xs[nat j := v]) else Inl IndexError)"

text \<open>
  \<open>int(s, 2)\<close> on the text that \<open>_get_raw\<close> joins from the characters \<open>0\<close> and \<open>1\<close>: the
  empty text is a \<open>ValueError\<close>.
\<close>

definition join_digits :: "bool list \<Rightarrow> string" where
  "join_digits ds = map (\<lambda>digit. if digit then CHR ''1'' else CHR ''0'') ds"

definition py_int_base2 :: "string \<Rightarrow> error + int" where
  "py_int_base2 s =
     (if s = [] then Inl ValueError
      else if list_all (\<lambda>c. c = CHR ''0'' \<or> c = CHR ''1'') s
      then Inr (foldl (\<lambda>acc c. 2 * acc + (if c = CHR ''1'' then 1 else 0)) 0 s)
      else Inl NotModelled)"

section \<open>The catalog tree\<close>

text \<open>
  An \<open>xml.etree\<close> element: tag, attributes, text and children in document order.
  \<open>find_tag e t\<close> is \<open>e.find('t')\<close>, \<open>find_attr e t k v\<close> is \<open>e.find('t[@k="v"]')\<close> and
  \<open>findall e t\<close> is \<open>e.findall('t')\<close>: all three look at the direct children only.
\<close>

datatype element =
  Element (tag: string) (attrib: "(string \<times> string) list") (elem_text: "string option")
    (children: "element list")

definition get :: "element \<Rightarrow> string \<Rightarrow> string option" where
  "get e k = map_of (attrib e) k"

definition find_tag :: "element \<Rightarrow> string \<Rightarrow> element option" where
  "find_tag e t = List.find (\<lambda>c. tag c = t) (children e)"

definition find_attr :: "element \<Rightarrow> string \<Rightarrow> string \<Rightarrow> string \<Rightarrow> element option" where
  "find_attr e t k v = List.find (\<lambda>c. tag c = t \<and> get c k = Some v) (children e)"

definition findall :: "element \<Rightarrow> string \<Rightarrow> element list" where
  "findall e t = filter (\<lambda>c. tag c = t) (children e)"

definition int_attr :: "element \<Rightarrow> string \<Rightarrow> error + int" where
  "int_attr e k = (case get e k of None \<Rightarrow> Inl TypeError | Some s \<Rightarrow> py_int s)"

section \<open>Bitfield codec\<close>

text \<open>
  The methods of the class \<open>EEP\<close> keep their names, without the leading underscore of the
  private ones: \<open>get_raw\<close> is \<open>_get_raw\<close>.  A bit array is a list of booleans.  The calls of
  the logger return nothing and change nothing, and are left out.
\<close>

definition get_raw :: "element \<Rightarrow> bool list \<Rightarrow> error + int" where
  "get_raw source bitarray =
     (case int_attr source ''offset'' of
        Inl e \<Rightarrow> Inl e
      | Inr offset \<Rightarrow>
          (case int_attr source ''size'' of
             Inl e \<Rightarrow> Inl e
           | Inr sz \<Rightarrow> py_int_base2 (join_digits (py_slice bitarray offset (offset + sz)))))"

text \<open>
  \<open>_set_raw\<close> writes one bit per round of \<open>for digit in range(size)\<close>; the first
  assignment outside the list raises and ends the loop.
\<close>

definition py_range :: "int \<Rightarrow> int list" where
  "py_range n = map int [0..<nat n]"

fun set_raw_loop :: "int \<Rightarrow> int \<Rightarrow> int \<Rightarrow> int list \<Rightarrow> bool list \<Rightarrow> error + bool list" where
  "set_raw_loop offset sz raw_value [] bitarray = Inr bitarray"
| "set_raw_loop offset sz raw_value (digit # digits) bitarray =
     (case py_setitem bitarray (offset + digit)
             (drop_bit (nat (sz - digit - 1)) raw_value AND 1 \<noteq> 0) of
        Inl e \<Rightarrow> Inl e
      | Inr bitarray' \<Rightarrow> set_raw_loop offset sz raw_value digits bitarray')"

definition set_raw :: "element \<Rightarrow> int \<Rightarrow> bool list \<Rightarrow> error + bool list" where
  "set_raw target raw_value bitarray =
     (case int_attr target ''offset'' of
        Inl e \<Rightarrow> Inl e
      | Inr offset \<Rightarrow>
          (case int_attr target ''size'' of
             Inl e \<Rightarrow> Inl e
           | Inr sz \<Rightarrow> set_raw_loop offset sz raw_value (py_range sz) bitarray))"

text \<open>The loaded catalog: \<open>self.init_ok\<close> and the three-level mapping \<open>self.telegrams\<close>.\<close>

record eep =
  init_ok :: bool
  telegrams :: "int \<Rightarrow> (int \<Rightarrow> (int \<Rightarrow> element option) option) option"

section \<open>Value transcoder: the decode path\<close>

text \<open>
  One entry of the decoded mapping: the key is \<open>source.get('shortcut')\<close>, the value the inner
  dictionary with the keys \<open>description\<close>, \<open>unit\<close>, \<open>value\<close> and \<open>raw_value\<close>.  A missing
  attribute reads as \<open>None\<close>, so keys and texts are optional.
\<close>

datatype pyvalue = VFloat pyfloat | VStr string | VBool bool

record decoded =
  description :: "string option"
  unit :: "string option"
  "value" :: pyvalue
  raw_value :: int

type_synonym entry = "string option \<times> decoded"

definition float_text :: "element \<Rightarrow> string \<Rightarrow> error + pyfloat" where
  "float_text e t =
     (case find_tag e t of
        None \<Rightarrow> Inl AttributeError
      | Some c \<Rightarrow> (case elem_text c of None \<Rightarrow> Inl TypeError | Some s \<Rightarrow> py_float s))"

text \<open>
  \<open>rescale\<close> is the expression
  \<open>(scl_max - scl_min) / (rng_max - rng_min) * (raw_value - rng_min) + scl_min\<close>
  in Python's order of evaluation: the division, then the conversion of \<open>raw_value\<close>.
\<close>

definition rescale :: "pyfloat \<Rightarrow> pyfloat \<Rightarrow> pyfloat \<Rightarrow> pyfloat \<Rightarrow> int \<Rightarrow> error + pyfloat" where
  "rescale rng_min rng_max scl_min scl_max raw =
     (case fdiv (fsub scl_max scl_min) (fsub rng_max rng_min) of
        Inl e \<Rightarrow> Inl e
      | Inr slope \<Rightarrow>
          (case float_of_int raw of
             Inl e \<Rightarrow> Inl e
           | Inr r \<Rightarrow> Inr (fadd (fmul slope (fsub r rng_min)) scl_min)))"

definition get_value :: "element \<Rightarrow> bool list \<Rightarrow> error + entry" where
  "get_value source bitarray =
     (case get_raw source bitarray of Inl e \<Rightarrow> Inl e | Inr raw \<Rightarrow>
      case find_tag source ''range'' of None \<Rightarrow> Inl AttributeError | Some rng \<Rightarrow>
      case float_text rng ''min'' of Inl e \<Rightarrow> Inl e | Inr rng_min \<Rightarrow>
      case float_text rng ''max'' of Inl e \<Rightarrow> Inl e | Inr rng_max \<Rightarrow>
      case find_tag source ''scale'' of None \<Rightarrow> Inl AttributeError | Some scl \<Rightarrow>
      case float_text scl ''min'' of Inl e \<Rightarrow> Inl e | Inr scl_min \<Rightarrow>
      case float_text scl ''max'' of Inl e \<Rightarrow> Inl e | Inr scl_max \<Rightarrow>
      case rescale rng_min rng_max scl_min scl_max raw of Inl e \<Rightarrow> Inl e | Inr v \<Rightarrow>
        Inr (get source ''shortcut'',
             \<lparr>description = get source ''description'', unit = get source ''unit'',
              value = VFloat v, raw_value = raw\<rparr>))"

text \<open>\<open>int(rangeitem.get(k, -1))\<close>: a missing bound is \<open>-1\<close>.\<close>

definition int_attr_default :: "element \<Rightarrow> string \<Rightarrow> int \<Rightarrow> error + int" where
  "int_attr_default e k d = (case get e k of None \<Rightarrow> Inr d | Some s \<Rightarrow> py_int s)"

fun get_rangeitem_loop :: "element list \<Rightarrow> int \<Rightarrow> error + element option" where
  "get_rangeitem_loop [] raw = Inr None"
| "get_rangeitem_loop (rangeitem # rest) raw =
     (case int_attr_default rangeitem ''start'' (- 1) of Inl e \<Rightarrow> Inl e | Inr start \<Rightarrow>
      case int_attr_default rangeitem ''end'' (- 1) of Inl e \<Rightarrow> Inl e | Inr stop \<Rightarrow>
        if start \<le> raw \<and> raw < stop + 1 then Inr (Some rangeitem)
        else get_rangeitem_loop rest raw)"

definition get_rangeitem :: "element \<Rightarrow> int \<Rightarrow> error + element option" where
  "get_rangeitem source raw = get_rangeitem_loop (findall source ''rangeitem'') raw"

text \<open>
  \<open>value_desc.get('description').format(value=raw_value)\<close>: \<open>AttributeError\<close> when no item was
  found, and when the item found has no description.
\<close>

definition describe :: "element option \<Rightarrow> int \<Rightarrow> error + string" where
  "describe value_desc raw =
     (case value_desc of
        None \<Rightarrow> Inl AttributeError
      | Some item \<Rightarrow>
          (case get item ''description'' of
             None \<Rightarrow> Inl AttributeError
           | Some d \<Rightarrow> py_format d raw))"

definition get_or :: "element \<Rightarrow> string \<Rightarrow> string \<Rightarrow> string" where
  "get_or e k d = (case get e k of None \<Rightarrow> d | Some s \<Rightarrow> s)"

definition get_enum :: "element \<Rightarrow> bool list \<Rightarrow> error + entry" where
  "get_enum source bitarray =
     (case get_raw source bitarray of Inl e \<Rightarrow> Inl e | Inr raw \<Rightarrow>
      case (case find_attr source ''item'' ''value'' (py_str raw) of
              None \<Rightarrow> get_rangeitem source raw
            | Some item \<Rightarrow> Inr (Some item)) of Inl e \<Rightarrow> Inl e | Inr value_desc \<Rightarrow>
      case describe value_desc raw of Inl e \<Rightarrow> Inl e | Inr s \<Rightarrow>
        Inr (get source ''shortcut'',
             \<lparr>description = get source ''description'', unit = Some (get_or source ''unit'' []),
              value = VStr s, raw_value = raw\<rparr>))"

definition get_boolean :: "element \<Rightarrow> bool list \<Rightarrow> error + entry" where
  "get_boolean source bitarray =
     (case get_raw source bitarray of Inl e \<Rightarrow> Inl e | Inr raw \<Rightarrow>
        Inr (get source ''shortcut'',
             \<lparr>description = get source ''description'', unit = Some (get_or source ''unit'' []),
              value = VBool (raw \<noteq> 0), raw_value = raw\<rparr>))"

text \<open>
  \<open>output.update({k: d})\<close> on an \<open>OrderedDict\<close>: a key already present keeps its place and
  takes the new value, a new key goes to the end.
\<close>

fun od_update :: "entry \<Rightarrow> entry list \<Rightarrow> entry list" where
  "od_update kd [] = [kd]"
| "od_update kd (p # ps) = (if fst p = fst kd then kd # ps else p # od_update kd ps)"

text \<open>The body of \<open>for source in profile\<close>: three tests of the tag, one after the other.\<close>

definition get_values_step :: "element \<Rightarrow> bool list \<Rightarrow> bool list \<Rightarrow> entry list \<Rightarrow> error + entry list" where
  "get_values_step source bitarray status output =
     (case (if tag source = ''value''
            then map_sum id (\<lambda>kd. od_update kd output) (get_value source bitarray)
            else Inr output) of Inl e \<Rightarrow> Inl e | Inr output1 \<Rightarrow>
      case (if tag source = ''enum''
            then map_sum id (\<lambda>kd. od_update kd output1) (get_enum source bitarray)
            else Inr output1) of Inl e \<Rightarrow> Inl e | Inr output2 \<Rightarrow>
        (if tag source = ''status''
         then map_sum id (\<lambda>kd. od_update kd output2) (get_boolean source status)
         else Inr output2))"

fun get_values_loop :: "element list \<Rightarrow> bool list \<Rightarrow> bool list \<Rightarrow> entry list \<Rightarrow> error + entry list" where
  "get_values_loop [] bitarray status output = Inr output"
| "get_values_loop (source # rest) bitarray status output =
     (case get_values_step source bitarray status output of
        Inl e \<Rightarrow> Inl e
      | Inr output' \<Rightarrow> get_values_loop rest bitarray status output')"

text \<open>The result is the pair \<open>output.keys(), output\<close>.\<close>

definition get_values ::
  "eep \<Rightarrow> element option \<Rightarrow> bool list \<Rightarrow> bool list \<Rightarrow> error + (string option list \<times> entry list)"
where
  "get_values self profile bitarray status =
     (if \<not> init_ok self \<or> profile = None then Inr ([], [])
      else case get_values_loop (children (the profile)) bitarray status [] of
        Inl e \<Rightarrow> Inl e
      | Inr output \<Rightarrow> Inr (map fst output, output))"

section \<open>Profile resolver\<close>

text \<open>\<open>if command:\<close> holds for an integer other than zero, and neither for \<open>None\<close> nor for \<open>0\<close>.\<close>

definition truthy :: "int option \<Rightarrow> bool" where
  "truthy command = (case command of None \<Rightarrow> False | Some c \<Rightarrow> c \<noteq> 0)"

definition find_profile ::
  "eep \<Rightarrow> bool list \<Rightarrow> int \<Rightarrow> int \<Rightarrow> int \<Rightarrow> int option \<Rightarrow> int option \<Rightarrow> error + element option"
where
  "find_profile self bitarray eep_rorg rorg_func rorg_type direction command =
     (if \<not> init_ok self then Inr None
      else case telegrams self eep_rorg of
        None \<Rightarrow> Inr None
      | Some funcs \<Rightarrow>
     (case funcs rorg_func of
        None \<Rightarrow> Inr None
      | Some types \<Rightarrow>
     (case types rorg_type of
        None \<Rightarrow> Inr None
      | Some profile \<Rightarrow>
          (let eep_command = find_tag profile ''command'' in
           if truthy command then
             (if eep_command = None then Inr (find_tag profile ''data'')
              else Inr (find_attr profile ''data'' ''command'' (py_str (the command))))
           else if eep_command \<noteq> None then
             (case get_raw (the eep_command) bitarray of
                Inl e \<Rightarrow> Inl e
              | Inr command_value \<Rightarrow>
                  (let found_data = find_attr profile ''data'' ''command'' (py_str command_value)
                   in if found_data \<noteq> None then Inr found_data
                      else Inr (find_tag profile ''data'')))
           else if direction = None then Inr (find_tag profile ''data'')
           else Inr (find_attr profile ''data'' ''direction'' (py_str (the direction)))))))"

section \<open>Notions used to state the properties\<close>

text \<open>
  The value of \<open>sz\<close> bits starting at \<open>offset\<close>, the most significant bit first, as the sum
  of the weights of the bits that are set.
\<close>

definition read_unsigned_spec :: "bool list \<Rightarrow> nat \<Rightarrow> nat \<Rightarrow> int" where
  "read_unsigned_spec bits offset sz =
     (\<Sum>i\<leftarrow>[0..<sz]. of_bool (bits ! (offset + i)) * 2 ^ (sz - 1 - i))"

text \<open>
  The enumeration lookup in the words of the specification: an item whose declared value
  is the raw value, and failing that a range item whose inclusive interval from \<open>start\<close> to
  \<open>end\<close> contains it.  A declared value is attribute text, and it is the raw value when it is
  the decimal rendering of the raw value.
\<close>

definition rangeitem_wellformed :: "element \<Rightarrow> bool" where
  "rangeitem_wellformed r =
     (case (int_attr_default r ''start'' (- 1), int_attr_default r ''end'' (- 1)) of
        (Inr a, Inr b) \<Rightarrow> True
      | _ \<Rightarrow> False)"

definition rangeitem_contains :: "element \<Rightarrow> int \<Rightarrow> bool" where
  "rangeitem_contains r raw =
     (case (int_attr_default r ''start'' (- 1), int_attr_default r ''end'' (- 1)) of
        (Inr a, Inr b) \<Rightarrow> a \<le> raw \<and> raw \<le> b
      | _ \<Rightarrow> False)"

definition enum_lookup_spec :: "element \<Rightarrow> int \<Rightarrow> element option" where
  "enum_lookup_spec source raw =
     (case List.find (\<lambda>c. tag c = ''item'' \<and> get c ''value'' = Some (py_str raw))
             (children source) of
        Some item \<Rightarrow> Some item
      | None \<Rightarrow>
          List.find (\<lambda>c. tag c = ''rangeitem'' \<and> rangeitem_contains c raw) (children source))"

definition no_braces :: "string \<Rightarrow> bool" where
  "no_braces s = list_all (\<lambda>c. c \<noteq> CHR ''{'' \<and> c \<noteq> CHR ''}'') s"

text \<open>
  The fields of a variant are its children with one of the three tags that \<open>get_values\<close>
  tests; \<open>decode_field\<close> is the conversion that \<open>get_values\<close> runs on such a child.
\<close>

definition is_field :: "element \<Rightarrow> bool" where
  "is_field s = (tag s = ''value'' \<or> tag s = ''enum'' \<or> tag s = ''status'')"

definition decode_field :: "element \<Rightarrow> bool list \<Rightarrow> bool list \<Rightarrow> error + entry" where
  "decode_field source bitarray status =
     (if tag source = ''value'' then get_value source bitarray
      else if tag source = ''enum'' then get_enum source bitarray
      else get_boolean source status)"

definition converts :: "element \<Rightarrow> bool list \<Rightarrow> bool list \<Rightarrow> bool" where
  "converts s bitarray status =
     (if is_field s then \<not> isl (decode_field s bitarray status) else True)"

definition other_shortcut :: "string option \<Rightarrow> element \<Rightarrow> bool" where
  "other_shortcut k s = (\<not> (is_field s \<and> get s ''shortcut'' = k))"

text \<open>A float value within a millionth of the integer \<open>x\<close>.\<close>

definition approximately :: "pyvalue \<Rightarrow> int \<Rightarrow> bool" where
  "approximately v x =
     (case v of
        VFloat (Finite m e) \<Rightarrow> 10 ^ 6 * \<bar>m * 2 ^ nat e - x * 2 ^ nat (- e)\<bar> \<le> 2 ^ nat (- e)
      | _ \<Rightarrow> False)"

section \<open>Example catalogs\<close>

text \<open>A loaded catalog that holds one profile, under \<open>D2-01-00\<close>.\<close>

definition ex_types :: "element \<Rightarrow> int \<Rightarrow> element option" where
  "ex_types profile = [0x00 \<mapsto> profile]"

definition ex_funcs :: "element \<Rightarrow> int \<Rightarrow> (int \<Rightarrow> element option) option" where
  "ex_funcs profile = [0x01 \<mapsto> ex_types profile]"

definition ex_eep :: "element \<Rightarrow> eep" where
  "ex_eep profile = \<lparr>init_ok = True, telegrams = [0xD2 \<mapsto> ex_funcs profile]\<rparr>"

definition ex_variant :: "string \<Rightarrow> string \<Rightarrow> element" where
  "ex_variant k v = Element ''data'' [(k, v)] None []"

definition ex_command_field :: element where
  "ex_command_field = Element ''command'' [(''offset'', ''0''), (''size'', ''4'')] None []"

text \<open>Two variants told apart by direction, and no command field.\<close>

definition ex_direction_profile :: element where
  "ex_direction_profile =
     Element ''profile'' [] None [ex_variant ''direction'' ''1'', ex_variant ''direction'' ''2'']"

text \<open>A command field in the first four bits and variants for the commands 1, 2 and 3.\<close>

definition ex_command_profile :: element where
  "ex_command_profile =
     Element ''profile'' [] None
       [ex_command_field, ex_variant ''command'' ''1'', ex_variant ''command'' ''2'',
        ex_variant ''command'' ''3'']"

text \<open>The same command field and variants for the commands 1 and 0.\<close>

definition ex_zero_command_profile :: element where
  "ex_zero_command_profile =
     Element ''profile'' [] None
       [ex_command_field, ex_variant ''command'' ''1'', ex_variant ''command'' ''0'']"

definition ex_field :: "string \<Rightarrow> string \<Rightarrow> element" where
  "ex_field offset sz = Element ''enum'' [(''offset'', offset), (''size'', sz)] None []"

text \<open>The temperature field of the scenario: one byte, range 0 to 255, scale -40.0 to 0.0.\<close>

definition ex_bounds :: "string \<Rightarrow> string \<Rightarrow> string \<Rightarrow> element" where
  "ex_bounds t lo hi =
     Element t [] None [Element ''min'' [] (Some lo) [], Element ''max'' [] (Some hi) []]"

definition ex_temperature :: element where
  "ex_temperature =
     Element ''value''
       [(''description'', ''Temperature (linear)''), (''shortcut'', ''TMP''),
        (''offset'', ''0''), (''size'', ''8''), (''unit'', ''C'')]
       None
       [ex_bounds ''range'' ''0'' ''255'', ex_bounds ''scale'' ''-40.0'' ''0.0'']"

definition ex_temperature_entry :: "pyfloat \<Rightarrow> int \<Rightarrow> entry" where
  "ex_temperature_entry v raw =
     (Some ''TMP'',
      \<lparr>description = Some ''Temperature (linear)'', unit = Some ''C'',
       value = VFloat v, raw_value = raw\<rparr>)"

text \<open>An enumeration with the item 5 and the range item 6 to 10.\<close>

definition ex_item :: element where
  "ex_item = Element ''item'' [(''description'', ''Open''), (''value'', ''5'')] None []"

definition ex_rangeitem :: element where
  "ex_rangeitem =
     Element ''rangeitem'' [(''description'', ''Mid {value}''), (''start'', ''6''), (''end'', ''10'')]
       None []"

definition ex_enum :: element where
  "ex_enum =
     Element ''enum'' [(''shortcut'', ''ST''), (''offset'', ''0''), (''size'', ''4'')] None
       [ex_item, ex_rangeitem]"

definition ex_enum_entry :: "string \<Rightarrow> int \<Rightarrow> entry" where
  "ex_enum_entry s raw =
     (Some ''ST'', \<lparr>description = None, unit = Some [], value = VStr s, raw_value = raw\<rparr>)"

definition ex_status :: "string \<Rightarrow> string \<Rightarrow> element" where
  "ex_status k offset =
     Element ''status'' [(''shortcut'', k), (''offset'', offset), (''size'', ''1'')] None []"

definition ex_status_entry :: "string \<Rightarrow> bool \<Rightarrow> int \<Rightarrow> entry" where
  "ex_status_entry k b raw =
     (Some k, \<lparr>description = None, unit = Some [], value = VBool b, raw_value = raw\<rparr>)"

text \<open>A variant whose enumeration comes before a status flag.\<close>

definition ex_mixed_variant :: element where
  "ex_mixed_variant = Element ''data'' [] None [ex_enum, ex_status ''X'' ''0'']"

text \<open>A variant with a flag on each side of the enumeration.\<close>

definition ex_flagged_variant :: element where
  "ex_flagged_variant =
     Element ''data'' [] None [ex_status ''A'' ''0'', ex_enum, ex_status ''X'' ''1'']"

text \<open>A variant with two flags of the same shortcut.\<close>

definition ex_duplicate_variant :: element where
  "ex_duplicate_variant =
     Element ''data'' [] None [ex_status ''X'' ''0'', ex_enum, ex_status ''X'' ''1'']"

section \<open>Decimal text\<close>

text \<open>
  The catalog stores a command, a direction and the value of an enumeration item as
  attribute text, and the code compares that text with \<open>'%s' % n\<close>.  The text \<open>'%s' % n\<close>
  is read back by \<open>int\<close> as \<open>n\<close>, so two integers with the same text are equal: an attribute
  written as a plain decimal number matches exactly its own number.
\<close>

lemma digit_char_cases:
  assumes "k < 10"
  shows "is_digit (digit_char k) \<and> digit_val (digit_char k) = int k"
proof -
  from assms
  have "k = 0 \<or> k = 1 \<or> k = 2 \<or> k = 3 \<or> k = 4 \<or> k = 5 \<or> k = 6 \<or> k = 7 \<or> k = 8 \<or> k = 9"
    by arith
  then show ?thesis
    by (elim disjE) (simp_all add: digit_char_def is_digit_def digit_val_def)
qed

lemma str_nat_digits: "str_nat n \<noteq> [] \<and> list_all is_digit (str_nat n)"
proof (induction n rule: str_nat.induct)
  case (1 n)
  show ?case
  proof (cases "n < 10")
    case True
    then show ?thesis by (simp add: str_nat.simps [of n] digit_char_cases)
  next
    case False
    with 1 show ?thesis by (simp add: str_nat.simps [of n] digit_char_cases)
  qed
qed

lemma py_digits_all_digits:
  "list_all is_digit ds \<Longrightarrow> ds \<noteq> [] \<or> prev \<Longrightarrow>
   py_digits acc prev ds = Some (foldl (\<lambda>a c. 10 * a + digit_val c) acc ds)"
  by (induction ds arbitrary: acc prev) auto

lemma str_nat_value: "foldl (\<lambda>a c. 10 * a + digit_val c) 0 (str_nat n) = int n"
proof (induction n rule: str_nat.induct)
  case (1 n)
  show ?case
  proof (cases "n < 10")
    case True
    then show ?thesis by (simp add: str_nat.simps [of n] digit_char_cases)
  next
    case False
    with 1 have "foldl (\<lambda>a c. 10 * a + digit_val c) 0 (str_nat n)
                 = 10 * int (n div 10) + int (n mod 10)"
      by (simp add: str_nat.simps [of n] digit_char_cases)
    moreover have "int (10 * (n div 10) + n mod 10) = int n" by simp
    then have "10 * int (n div 10) + int (n mod 10) = int n"
      by (simp only: of_nat_add of_nat_mult of_nat_numeral)
    ultimately show ?thesis by simp
  qed
qed

lemma digit_not_space: "is_digit c \<Longrightarrow> \<not> is_space c"
  by (auto simp: is_digit_def is_space_def)

lemma strip_unchanged:
  assumes "s \<noteq> []" and "\<not> is_space (hd s)" and "\<not> is_space (last s)"
  shows "strip s = s"
proof -
  from assms have "dropWhile is_space (rev s) = rev s"
    by (cases "rev s") (auto simp: last_rev [symmetric] hd_rev)
  moreover from assms have "dropWhile is_space s = s" by (cases s) auto
  ultimately show ?thesis by (simp add: strip_def)
qed

lemma py_int_py_str: "py_int (py_str i) = Inr i"
proof -
  define n where "n = nat \<bar>i\<bar>"
  from str_nat_digits [of n] have ne: "str_nat n \<noteq> []" and ds: "list_all is_digit (str_nat n)"
    by simp_all
  from ne ds have first: "is_digit (hd (str_nat n))" and final: "is_digit (last (str_nat n))"
    by (cases "str_nat n"; simp add: list_all_iff)+
  have parsed: "py_digits 0 False (str_nat n) = Some (int n)"
    using ne ds by (simp add: py_digits_all_digits str_nat_value)
  show ?thesis
  proof (cases "i < 0")
    case True
    have minus: "\<not> is_space CHR ''-''" by (simp add: is_space_def)
    have "strip (CHR ''-'' # str_nat n) = CHR ''-'' # str_nat n"
      using ne final minus by (intro strip_unchanged) (simp_all add: digit_not_space)
    with True parsed show ?thesis by (simp add: py_int_def py_str_def n_def)
  next
    case False
    have s: "strip (str_nat n) = str_nat n"
      using ne first final by (intro strip_unchanged) (simp_all add: digit_not_space)
    obtain c cs where cs: "str_nat n = c # cs" using ne by (cases "str_nat n") auto
    with first have "c \<noteq> CHR ''-''" "c \<noteq> CHR ''+''" by (auto simp: is_digit_def)
    with False parsed s cs show ?thesis by (simp add: py_int_def py_str_def n_def)
  qed
qed

lemma py_str_inject: "py_str a = py_str b \<Longrightarrow> a = b"
  by (metis py_int_py_str sum.inject(2))

lemma decimal_attribute_matches:
  "get v k = Some (py_str c) \<Longrightarrow> (get v k = Some (py_str n)) = (c = n)"
  by (auto dest: py_str_inject)

section \<open>Catalog lookups\<close>

lemma find_as_filter: "List.find P xs = (case filter P xs of [] \<Rightarrow> None | x # _ \<Rightarrow> Some x)"
  by (induction xs) auto

lemma find_conj_filter: "List.find (\<lambda>c. P c \<and> Q c) xs = List.find Q (filter P xs)"
  by (induction xs) auto

lemma find_tag_first: "find_tag e t = (case findall e t of [] \<Rightarrow> None | v # _ \<Rightarrow> Some v)"
  by (simp add: find_tag_def findall_def find_as_filter)

lemma find_attr_findall:
  "find_attr e t k v = List.find (\<lambda>c. get c k = Some v) (findall e t)"
  by (simp add: find_attr_def findall_def find_conj_filter)

section \<open>Bitfield codec: reading\<close>

lemma base2_fold_snoc:
  "foldl (\<lambda>acc c. 2 * acc + (if c = CHR ''1'' then 1 else 0)) (0::int) (join_digits (ds @ [d]))
   = 2 * foldl (\<lambda>acc c. 2 * acc + (if c = CHR ''1'' then 1 else 0)) 0 (join_digits ds)
     + of_bool d"
  by (simp add: join_digits_def)

lemma base2_value:
  "foldl (\<lambda>acc c. 2 * acc + (if c = CHR ''1'' then 1 else 0)) (0::int) (join_digits ds)
   = read_unsigned_spec ds 0 (length ds)"
proof (induction ds rule: rev_induct)
  case Nil
  show ?case by (simp add: join_digits_def read_unsigned_spec_def)
next
  case (snoc d ds)
  let ?n = "length ds"
  have step: "of_bool ((ds @ [d]) ! i) * 2 ^ (?n - i)
              = 2 * (of_bool (ds ! i) * (2::int) ^ (?n - 1 - i))"
    if "i \<in> set [0..<?n]" for i
  proof -
    from that have lt: "i < ?n" by simp
    then have "?n - i = Suc (?n - 1 - i)" by arith
    with lt show ?thesis by (simp add: nth_append)
  qed
  have "read_unsigned_spec (ds @ [d]) 0 (length (ds @ [d]))
        = (\<Sum>i\<leftarrow>[0..<?n]. of_bool ((ds @ [d]) ! i) * 2 ^ (?n - i)) + of_bool d"
    unfolding read_unsigned_spec_def by simp
  also have "(\<Sum>i\<leftarrow>[0..<?n]. of_bool ((ds @ [d]) ! i) * (2::int) ^ (?n - i))
        = (\<Sum>i\<leftarrow>[0..<?n]. 2 * (of_bool (ds ! i) * 2 ^ (?n - 1 - i)))"
    using step by (intro arg_cong [where f = sum_list] map_cong refl)
  also have "\<dots> = 2 * read_unsigned_spec ds 0 ?n"
    unfolding read_unsigned_spec_def by (simp add: sum_list_const_mult)
  finally show ?case
    using snoc.IH by (simp only: base2_fold_snoc)
qed

lemma join_digits_alphabet: "list_all (\<lambda>c. c = CHR ''0'' \<or> c = CHR ''1'') (join_digits ds)"
  by (induction ds) (simp_all add: join_digits_def)

lemma read_unsigned_spec_shift:
  "offset + sz \<le> length bits \<Longrightarrow>
   read_unsigned_spec (take sz (drop offset bits)) 0 sz = read_unsigned_spec bits offset sz"
  unfolding read_unsigned_spec_def
  by (intro arg_cong [where f = sum_list] map_cong refl) simp

lemma py_slice_in_range:
  assumes "0 \<le> offset" and "0 \<le> sz" and "offset + sz \<le> int (length bits)"
  shows "py_slice bits offset (offset + sz) = take (nat sz) (drop (nat offset) bits)"
proof -
  have "nat offset + nat sz \<le> length bits" using assms by linarith
  then show ?thesis
    using assms by (simp add: py_slice_def slice_bound_def Let_def min_def nat_add_distrib)
qed

lemma py_slice_truncated:
  assumes "0 \<le> offset" and "int (length bits) < offset + sz"
  shows "py_slice bits offset (offset + sz) = drop (nat offset) bits"
  using assms by (simp add: py_slice_def slice_bound_def Let_def min_def)

lemma get_raw_in_range:
  assumes "int_attr source ''offset'' = Inr offset" and "int_attr source ''size'' = Inr sz"
    and "0 \<le> offset" and "1 \<le> sz" and "offset + sz \<le> int (length bits)"
  shows "get_raw source bits = Inr (read_unsigned_spec bits (nat offset) (nat sz))"
proof -
  let ?ds = "take (nat sz) (drop (nat offset) bits)"
  have len: "length ?ds = nat sz" using assms by simp
  have ne: "join_digits ?ds \<noteq> []" using assms len by (auto simp: join_digits_def)
  have all: "list_all (\<lambda>c. c = CHR ''0'' \<or> c = CHR ''1'') (join_digits ?ds)"
    by (rule join_digits_alphabet)
  have "get_raw source bits = py_int_base2 (join_digits ?ds)"
    using assms by (simp add: get_raw_def py_slice_in_range)
  also have "\<dots> = Inr (read_unsigned_spec ?ds 0 (length ?ds))"
    using ne all by (simp add: py_int_base2_def base2_value)
  also have "read_unsigned_spec ?ds 0 (length ?ds) = read_unsigned_spec bits (nat offset) (nat sz)"
    unfolding len using assms by (intro read_unsigned_spec_shift) linarith
  finally show ?thesis .
qed

section \<open>Bitfield codec: writing\<close>

lemma set_raw_loop_append:
  "set_raw_loop offset sz v (xs @ ys) b
   = (case set_raw_loop offset sz v xs b of
        Inl e \<Rightarrow> Inl e
      | Inr b' \<Rightarrow> set_raw_loop offset sz v ys b')"
  by (induction xs arbitrary: b) (simp_all split: sum.splits)

lemma shifted_bit: "(drop_bit k (v::int) AND 1 \<noteq> 0) = bit v k"
  by (simp add: and_one_eq bit_iff_odd_drop_bit odd_iff_mod_2_eq_one)

lemma set_raw_loop_upt:
  assumes "0 \<le> offset" and "offset + int n \<le> int (length b)"
  shows "\<exists>b'. set_raw_loop offset sz v (map int [0..<n]) b = Inr b'
              \<and> length b' = length b
              \<and> (\<forall>j<length b. b' ! j =
                    (if nat offset \<le> j \<and> j < nat offset + n
                     then bit v (nat (sz - int (j - nat offset) - 1)) else b ! j))"
  using assms
proof (induction n)
  case 0
  then show ?case by auto
next
  case (Suc n)
  then obtain b' where loop: "set_raw_loop offset sz v (map int [0..<n]) b = Inr b'"
    and len: "length b' = length b"
    and nth: "\<forall>j<length b. b' ! j =
                (if nat offset \<le> j \<and> j < nat offset + n
                 then bit v (nat (sz - int (j - nat offset) - 1)) else b ! j)"
    by fastforce
  let ?w = "b'[nat offset + n := bit v (nat (sz - int n - 1))]"
  have inside: "offset + int n < int (length b')" using Suc.prems len by simp
  have idx: "nat (offset + int n) = nat offset + n" using Suc.prems by (simp add: nat_add_distrib)
  have "set_raw_loop offset sz v (map int [0..<Suc n]) b = Inr ?w"
    using loop inside Suc.prems(1)
    by (simp add: set_raw_loop_append py_setitem_def shifted_bit idx)
  moreover have "length ?w = length b" using len by simp
  moreover have "\<forall>j<length b. ?w ! j =
                   (if nat offset \<le> j \<and> j < nat offset + Suc n
                    then bit v (nat (sz - int (j - nat offset) - 1)) else b ! j)"
  proof (intro allI impI)
    fix j assume j: "j < length b"
    show "?w ! j = (if nat offset \<le> j \<and> j < nat offset + Suc n
                    then bit v (nat (sz - int (j - nat offset) - 1)) else b ! j)"
    proof (cases "j = nat offset + n")
      case True
      with j len show ?thesis by simp
    next
      case False
      with j nth show ?thesis by (auto simp: nth_list_update)
    qed
  qed
  ultimately show ?case by blast
qed

lemma set_raw_loop_overrun:
  assumes "0 \<le> offset" and "1 \<le> sz" and "int (length b) < offset + sz"
  shows "set_raw_loop offset sz v (map int [0..<nat sz]) b = Inl IndexError"
proof -
  define k where "k = nat (int (length b) - offset)"
  have k_lt: "k < nat sz" using assms by (simp add: k_def)
  have split: "[0..<nat sz] = [0..<k] @ k # [Suc k..<nat sz]"
    using k_lt
    by (metis less_imp_le_nat upt_add_eq_append upt_conv_Cons le0 le_add_diff_inverse
        plus_nat.add_0)
  have past: "int (length b) \<le> offset + int k" using assms by (simp add: k_def)
  obtain b' where loop: "set_raw_loop offset sz v (map int [0..<k]) b = Inr b'"
    and len: "length b' = length b"
  proof (cases "offset + int k \<le> int (length b)")
    case True
    from set_raw_loop_upt [OF assms(1) True, of sz v] that show ?thesis by blast
  next
    case False
    then have "k = 0" unfolding k_def by linarith
    with that show ?thesis by simp
  qed
  have "py_setitem b' (offset + int k) x = Inl IndexError" for x
    using past len assms(1) by (simp add: py_setitem_def)
  then show ?thesis
    using loop by (simp add: split set_raw_loop_append)
qed

lemma msb_first_sum:
  "(\<Sum>i\<leftarrow>[0..<n]. of_bool (bit (v::int) (n - 1 - i)) * 2 ^ (n - 1 - i)) = take_bit n v"
proof -
  have "(\<Sum>i\<leftarrow>[0..<n]. of_bool (bit v (n - 1 - i)) * (2::int) ^ (n - 1 - i))
        = (\<Sum>i = 0..<n. of_bool (bit v (n - 1 - i)) * 2 ^ (n - 1 - i))"
    by (simp add: interv_sum_list_conv_sum_set_nat)
  also have "\<dots> = (\<Sum>k = 0..<n. of_bool (bit v k) * 2 ^ k)"
    by (subst (2) sum.atLeastLessThan_rev) simp
  also have "\<dots> = take_bit n v"
    by (simp add: take_bit_sum [of n v] push_bit_eq_mult mult.commute)
  finally show ?thesis .
qed

section \<open>Formatting a description\<close>

lemma format_text_plain_char:
  "c \<noteq> CHR ''{'' \<Longrightarrow> c \<noteq> CHR ''}'' \<Longrightarrow>
   format_text (c # cs) n = map_sum id ((#) c) (format_text cs n)"
  by (cases cs) simp_all

lemma format_text_prefix:
  "no_braces pre \<Longrightarrow> format_text (pre @ rest) n = map_sum id ((@) pre) (format_text rest n)"
proof (induction pre)
  case Nil
  show ?case by (simp add: sum.map_ident)
next
  case (Cons c pre)
  then show ?case
    by (simp add: no_braces_def format_text_plain_char sum.map_comp comp_def)
qed

lemma format_text_plain: "no_braces s \<Longrightarrow> format_text s n = Inr s"
  using format_text_prefix [of s "[]" n] by simp

lemma py_format_placeholder:
  assumes "no_braces pre" and "no_braces post"
  shows "py_format (pre @ ''{value}'' @ post) n = Inr (pre @ py_str n @ post)"
  using assms by (simp add: py_format_def format_text_prefix field_text_def format_text_plain)

lemma py_format_plain: "no_braces s \<Longrightarrow> py_format s n = Inr s"
  by (simp add: py_format_def format_text_plain)

section \<open>Enumerations\<close>

lemma get_rangeitem_loop_find:
  "list_all rangeitem_wellformed rs \<Longrightarrow>
   get_rangeitem_loop rs raw = Inr (List.find (\<lambda>r. rangeitem_contains r raw) rs)"
  by (induction rs)
     (auto simp: rangeitem_wellformed_def rangeitem_contains_def split: sum.splits)

lemma get_rangeitem_find:
  assumes "list_all rangeitem_wellformed (findall source ''rangeitem'')"
  shows "get_rangeitem source raw
         = Inr (List.find (\<lambda>c. tag c = ''rangeitem'' \<and> rangeitem_contains c raw)
                  (children source))"
  using get_rangeitem_loop_find [OF assms, of raw]
  by (simp add: get_rangeitem_def findall_def find_conj_filter)

lemma get_enum_lookup:
  assumes "get_raw source bitarray = Inr raw"
    and "list_all rangeitem_wellformed (findall source ''rangeitem'')"
  shows "get_enum source bitarray
         = (case describe (enum_lookup_spec source raw) raw of
              Inl e \<Rightarrow> Inl e
            | Inr s \<Rightarrow>
                Inr (get source ''shortcut'',
                     \<lparr>description = get source ''description'',
                      unit = Some (get_or source ''unit'' []),
                      value = VStr s, raw_value = raw\<rparr>))"
  using assms(1) get_rangeitem_find [OF assms(2), of raw]
  by (simp add: get_enum_def enum_lookup_spec_def find_attr_def split: option.splits)

section \<open>The decode loop\<close>

lemma get_values_step_field:
  "is_field s \<Longrightarrow>
   get_values_step s bitarray status out
   = map_sum id (\<lambda>kd. od_update kd out) (decode_field s bitarray status)"
  by (cases "decode_field s bitarray status")
     (auto simp: get_values_step_def decode_field_def is_field_def)

lemma get_values_step_skip:
  "\<not> is_field s \<Longrightarrow> get_values_step s bitarray status out = Inr out"
  by (simp add: get_values_step_def is_field_def)

lemma decode_field_key:
  "decode_field s bitarray status = Inr (k, d) \<Longrightarrow> k = get s ''shortcut''"
  by (auto simp: decode_field_def get_value_def get_enum_def get_boolean_def
      split: if_splits sum.splits option.splits)

lemma get_values_loop_append:
  "get_values_loop (xs @ ys) bitarray status out
   = (case get_values_loop xs bitarray status out of
        Inl e \<Rightarrow> Inl e
      | Inr out' \<Rightarrow> get_values_loop ys bitarray status out')"
  by (induction xs arbitrary: out) (simp_all split: sum.splits)

lemma get_values_loop_converts:
  "list_all (\<lambda>s. converts s bitarray status) xs \<Longrightarrow>
   \<exists>out'. get_values_loop xs bitarray status out = Inr out'"
proof (induction xs arbitrary: out)
  case Nil
  show ?case by simp
next
  case (Cons s xs)
  from Cons.prems have s: "converts s bitarray status"
    and xs: "list_all (\<lambda>s. converts s bitarray status) xs" by simp_all
  from s obtain out1 where "get_values_step s bitarray status out = Inr out1"
    by (cases "is_field s"; cases "decode_field s bitarray status")
       (auto simp: converts_def get_values_step_field get_values_step_skip)
  with Cons.IH [OF xs, of out1] show ?case by simp
qed

lemma map_of_od_update: "map_of (od_update (k, d) out) = (map_of out)(k \<mapsto> d)"
  by (induction out) (auto simp: fun_eq_iff)

lemma keys_od_update:
  "map fst (od_update (k, d) out)
   = (if k \<in> fst ` set out then map fst out else map fst out @ [k])"
  by (induction out) auto

lemma distinct_od_update:
  "distinct (map fst out) \<Longrightarrow> distinct (map fst (od_update (k, d) out))"
  by (simp add: keys_od_update)

lemma get_values_step_cases:
  assumes "get_values_step s bitarray status out = Inr out'"
  shows "(\<not> is_field s \<and> out' = out)
       \<or> (is_field s \<and> (\<exists>d. decode_field s bitarray status = Inr (get s ''shortcut'', d)
                              \<and> out' = od_update (get s ''shortcut'', d) out))"
proof (cases "is_field s")
  case False
  with assms show ?thesis by (simp add: get_values_step_skip)
next
  case True
  with assms obtain k d where kd: "decode_field s bitarray status = Inr (k, d)"
    and out': "out' = od_update (k, d) out"
    by (cases "decode_field s bitarray status") (auto simp: get_values_step_field)
  from decode_field_key [OF kd] kd out' True show ?thesis by simp
qed

lemma get_values_loop_distinct:
  "get_values_loop xs bitarray status out = Inr out' \<Longrightarrow> distinct (map fst out) \<Longrightarrow>
   distinct (map fst out')"
proof (induction xs arbitrary: out)
  case Nil
  then show ?case by simp
next
  case (Cons s xs)
  from Cons.prems(1) obtain out1 where step: "get_values_step s bitarray status out = Inr out1"
    and rest: "get_values_loop xs bitarray status out1 = Inr out'"
    by (auto split: sum.splits)
  from get_values_step_cases [OF step] Cons.prems(2) have "distinct (map fst out1)"
    by (auto simp: distinct_od_update)
  with Cons.IH [OF rest] show ?case .
qed

lemma get_values_loop_keeps:
  "get_values_loop xs bitarray status out = Inr out' \<Longrightarrow> list_all (other_shortcut k) xs \<Longrightarrow>
   map_of out' k = map_of out k"
proof (induction xs arbitrary: out)
  case Nil
  then show ?case by simp
next
  case (Cons s xs)
  from Cons.prems(1) obtain out1 where step: "get_values_step s bitarray status out = Inr out1"
    and rest: "get_values_loop xs bitarray status out1 = Inr out'"
    by (auto split: sum.splits)
  from Cons.prems(2) have s: "other_shortcut k s" and xs: "list_all (other_shortcut k) xs"
    by simp_all
  from get_values_step_cases [OF step] s have "map_of out1 k = map_of out k"
    by (auto simp: other_shortcut_def map_of_od_update)
  with Cons.IH [OF rest xs] show ?case by simp
qed

lemma one_entry:
  "distinct (map fst out) \<Longrightarrow> map_of out k = Some d \<Longrightarrow>
   length (filter (\<lambda>kd. fst kd = k) out) = 1"
proof (induction out)
  case Nil
  then show ?case by simp
next
  case (Cons p out)
  show ?case
  proof (cases "fst p = k")
    case True
    with Cons.prems(1) have "k \<notin> fst ` set out" by auto
    then have "filter (\<lambda>kd. fst kd = k) out = []" by (auto simp: filter_empty_conv)
    with True show ?thesis by simp
  next
    case False
    with Cons show ?thesis by (cases p) (auto split: if_splits)
  qed
qed

section \<open>The examples evaluated\<close>

lemma ex_eep_lookup:
  "init_ok (ex_eep p)" "telegrams (ex_eep p) 0xD2 = Some (ex_funcs p)"
  "ex_funcs p 0x01 = Some (ex_types p)" "ex_types p 0x00 = Some p"
  by (simp_all add: ex_eep_def ex_funcs_def ex_types_def)

lemma ex_temperature_bounds:
  "find_tag ex_temperature ''range'' = Some (ex_bounds ''range'' ''0'' ''255'')"
  "find_tag ex_temperature ''scale'' = Some (ex_bounds ''scale'' ''-40.0'' ''0.0'')"
  "float_text (ex_bounds ''range'' ''0'' ''255'') ''min'' = Inr (Finite 0 (- 1074))"
  "float_text (ex_bounds ''range'' ''0'' ''255'') ''max'' = Inr (Finite (255 * 2 ^ 45) (- 45))"
  "float_text (ex_bounds ''scale'' ''-40.0'' ''0.0'') ''min'' = Inr (Finite (- (40 * 2 ^ 47)) (- 47))"
  "float_text (ex_bounds ''scale'' ''-40.0'' ''0.0'') ''max'' = Inr (Finite 0 (- 1074))"
  by code_simp+

lemma ex_temperature_ff:
  "get_value ex_temperature (replicate 8 True)
   = Inr (ex_temperature_entry (Finite 0 (- 1074)) 255)"
  by code_simp

lemma ex_temperature_00:
  "get_value ex_temperature (replicate 8 False)
   = Inr (ex_temperature_entry (Finite (- 5629499534213120) (- 47)) 0)"
  by code_simp

text \<open>An error of reading the command field leaves \<open>find_profile\<close>.\<close>

lemma find_profile_read_error:
  assumes "init_ok self" and "telegrams self eep_rorg = Some funcs"
    and "funcs rorg_func = Some types" and "types rorg_type = Some profile"
    and "find_tag profile ''command'' = Some eep_command"
    and "get_raw eep_command bitarray = Inl e"
  shows "find_profile self bitarray eep_rorg rorg_func rorg_type direction None = Inl e"
  using assms by (simp add: find_profile_def truthy_def)

section \<open>Profile resolver: the claims\<close>

text \<open>
  C1, as stated, fails: in a profile without a command field, with the variants of
  direction 1 and direction 2, a call with the command 5 and the direction 2 returns the
  variant of direction 1, although a variant of direction 2 is present.
\<close>

theorem find_profile_direction_ignored:
  "find_profile (ex_eep ex_direction_profile) [] 0xD2 0x01 0x00 (Some 2) (Some 5)
     = Inr (Some (ex_variant ''direction'' ''1''))
   \<and> find_attr ex_direction_profile ''data'' ''direction'' (py_str 2)
     = Some (ex_variant ''direction'' ''2'')
   \<and> ex_variant ''direction'' ''1'' \<noteq> ex_variant ''direction'' ''2''"
  by (simp add: find_profile_def ex_eep_lookup truthy_def)
     (simp add: ex_direction_profile_def ex_variant_def find_tag_def find_attr_def get_def
       py_str_def str_nat.simps digit_char_def)

text \<open>
  C1, amended: for every profile with no command field and every command other than zero,
  \<open>find_profile\<close> returns the first variant in declaration order (none when the profile has
  no variant), whatever the requested direction.
\<close>

theorem find_profile_no_command_field:
  assumes "init_ok self" and "telegrams self eep_rorg = Some funcs"
    and "funcs rorg_func = Some types" and "types rorg_type = Some profile"
    and "find_tag profile ''command'' = None" and "c \<noteq> 0"
  shows "find_profile self bitarray eep_rorg rorg_func rorg_type direction (Some c)
         = Inr (case findall profile ''data'' of [] \<Rightarrow> None | v # _ \<Rightarrow> Some v)"
  using assms by (simp add: find_profile_def truthy_def find_tag_first)

theorem find_profile_no_command_field_witness:
  "init_ok (ex_eep ex_direction_profile)
   \<and> telegrams (ex_eep ex_direction_profile) 0xD2 = Some (ex_funcs ex_direction_profile)
   \<and> ex_funcs ex_direction_profile 0x01 = Some (ex_types ex_direction_profile)
   \<and> ex_types ex_direction_profile 0x00 = Some ex_direction_profile
   \<and> find_tag ex_direction_profile ''command'' = None
   \<and> (5::int) \<noteq> 0
   \<and> find_profile (ex_eep ex_direction_profile) [True] 0xD2 0x01 0x00 (Some 2) (Some 5)
     = Inr (Some (ex_variant ''direction'' ''1''))"
proof -
  have no_command: "find_tag ex_direction_profile ''command'' = None"
    by (simp add: ex_direction_profile_def ex_variant_def find_tag_def)
  have nonzero: "(5::int) \<noteq> 0" by simp
  have first: "(case findall ex_direction_profile ''data'' of [] \<Rightarrow> None | v # _ \<Rightarrow> Some v)
               = Some (ex_variant ''direction'' ''1'')"
    by (simp add: ex_direction_profile_def ex_variant_def findall_def)
  from find_profile_no_command_field [OF ex_eep_lookup no_command nonzero,
      of "[True]" "Some 2"] first no_command
  show ?thesis by (simp add: ex_eep_lookup)
qed

text \<open>
  C2, as stated, fails at the command 0: with the command field holding 1 and variants for
  the commands 1 and 0, a call with the explicit command 0 returns the variant of command
  1, not the variant whose command is 0.
\<close>

theorem find_profile_command_zero_decoded:
  "find_profile (ex_eep ex_zero_command_profile) [False, False, False, True] 0xD2 0x01 0x00
       None (Some 0)
     = Inr (Some (ex_variant ''command'' ''1''))
   \<and> find_attr ex_zero_command_profile ''data'' ''command'' (py_str 0)
     = Some (ex_variant ''command'' ''0'')
   \<and> ex_variant ''command'' ''1'' \<noteq> ex_variant ''command'' ''0''"
proof -
  have "find_profile (ex_eep ex_zero_command_profile) [False, False, False, True] 0xD2 0x01 0x00
          None (Some 0)
        = Inr (Some (ex_variant ''command'' ''1''))"
    by code_simp
  moreover have "find_attr ex_zero_command_profile ''data'' ''command'' (py_str 0)
                 = Some (ex_variant ''command'' ''0'')"
    by code_simp
  moreover have "ex_variant ''command'' ''1'' \<noteq> ex_variant ''command'' ''0''"
    by (simp add: ex_variant_def)
  ultimately show ?thesis by simp
qed

text \<open>
  C2, amended: for every profile that declares a command field and every explicit command
  other than zero, \<open>find_profile\<close> returns the first variant whose \<open>command\<close> attribute is
  the decimal text of that command, and nothing when no variant has it: there is no
  fallback to the first variant.
\<close>

theorem find_profile_explicit_command:
  assumes "init_ok self" and "telegrams self eep_rorg = Some funcs"
    and "funcs rorg_func = Some types" and "types rorg_type = Some profile"
    and "find_tag profile ''command'' = Some eep_command" and "c \<noteq> 0"
  shows "find_profile self bitarray eep_rorg rorg_func rorg_type direction (Some c)
         = Inr (List.find (\<lambda>v. get v ''command'' = Some (py_str c)) (findall profile ''data''))"
  using assms by (simp add: find_profile_def truthy_def find_attr_findall)

theorem find_profile_explicit_command_witness:
  "init_ok (ex_eep ex_command_profile)
   \<and> telegrams (ex_eep ex_command_profile) 0xD2 = Some (ex_funcs ex_command_profile)
   \<and> ex_funcs ex_command_profile 0x01 = Some (ex_types ex_command_profile)
   \<and> ex_types ex_command_profile 0x00 = Some ex_command_profile
   \<and> find_tag ex_command_profile ''command'' = Some ex_command_field
   \<and> (2::int) \<noteq> 0
   \<and> find_profile (ex_eep ex_command_profile) [] 0xD2 0x01 0x00 None (Some 2)
     = Inr (Some (ex_variant ''command'' ''2''))
   \<and> find_profile (ex_eep ex_command_profile) [] 0xD2 0x01 0x00 None (Some 9) = Inr None"
proof -
  have field: "find_tag ex_command_profile ''command'' = Some ex_command_field"
    by code_simp
  have two: "(2::int) \<noteq> 0" and nine: "(9::int) \<noteq> 0" by simp_all
  have found: "List.find (\<lambda>v. get v ''command'' = Some (py_str 2))
                 (findall ex_command_profile ''data'') = Some (ex_variant ''command'' ''2'')"
    by code_simp
  have missing: "List.find (\<lambda>v. get v ''command'' = Some (py_str 9))
                   (findall ex_command_profile ''data'') = None"
    by code_simp
  from find_profile_explicit_command [OF ex_eep_lookup field two, of "[]" None]
    find_profile_explicit_command [OF ex_eep_lookup field nine, of "[]" None]
    found missing field
  show ?thesis by (simp add: ex_eep_lookup)
qed

text \<open>
  C3: for every profile that declares a command field, a call without a command reads the
  unsigned integer at the offset and size of the command field (the field lying inside the
  data bits), returns the first variant whose \<open>command\<close> attribute is the decimal text of
  that integer if there is one, and the first declared variant otherwise.
\<close>

theorem find_profile_decoded_command:
  assumes "init_ok self" and "telegrams self eep_rorg = Some funcs"
    and "funcs rorg_func = Some types" and "types rorg_type = Some profile"
    and "find_tag profile ''command'' = Some eep_command"
    and "int_attr eep_command ''offset'' = Inr offset"
    and "int_attr eep_command ''size'' = Inr sz"
    and "0 \<le> offset" and "1 \<le> sz" and "offset + sz \<le> int (length bitarray)"
  shows "find_profile self bitarray eep_rorg rorg_func rorg_type direction None
         = Inr (case List.find
                       (\<lambda>v. get v ''command''
                            = Some (py_str (read_unsigned_spec bitarray (nat offset) (nat sz))))
                       (findall profile ''data'') of
                  Some v \<Rightarrow> Some v
                | None \<Rightarrow> (case findall profile ''data'' of [] \<Rightarrow> None | v # _ \<Rightarrow> Some v))"
proof -
  have raw: "get_raw eep_command bitarray
             = Inr (read_unsigned_spec bitarray (nat offset) (nat sz))"
    using assms(6-10) by (rule get_raw_in_range)
  show ?thesis
    using assms(1-5) raw
    by (simp add: find_profile_def truthy_def find_attr_findall find_tag_first
        split: option.splits)
qed

theorem find_profile_decoded_command_witness:
  "init_ok (ex_eep ex_command_profile)
   \<and> telegrams (ex_eep ex_command_profile) 0xD2 = Some (ex_funcs ex_command_profile)
   \<and> ex_funcs ex_command_profile 0x01 = Some (ex_types ex_command_profile)
   \<and> ex_types ex_command_profile 0x00 = Some ex_command_profile
   \<and> find_tag ex_command_profile ''command'' = Some ex_command_field
   \<and> int_attr ex_command_field ''offset'' = Inr 0
   \<and> int_attr ex_command_field ''size'' = Inr 4
   \<and> (0::int) \<le> 0 \<and> (1::int) \<le> 4
   \<and> 0 + 4 \<le> int (length [True, False, False, True])
   \<and> read_unsigned_spec [True, False, False, True] 0 4 = 9
   \<and> find_profile (ex_eep ex_command_profile) [True, False, False, True] 0xD2 0x01 0x00
        None None
     = Inr (Some (ex_variant ''command'' ''1''))
   \<and> read_unsigned_spec [False, False, True, True] 0 4 = 3
   \<and> find_profile (ex_eep ex_command_profile) [False, False, True, True] 0xD2 0x01 0x00
        None None
     = Inr (Some (ex_variant ''command'' ''3''))"
proof -
  have field: "find_tag ex_command_profile ''command'' = Some ex_command_field"
    by code_simp
  have offset: "int_attr ex_command_field ''offset'' = Inr 0"
    and sz: "int_attr ex_command_field ''size'' = Inr 4"
    by code_simp+
  have bounds: "(0::int) \<le> 0" "(1::int) \<le> 4" by simp_all
  have len9: "0 + 4 \<le> int (length [True, False, False, True])"
    and len3: "0 + 4 \<le> int (length [False, False, True, True])" by simp_all
  have nine: "read_unsigned_spec [True, False, False, True] 0 4 = 9"
    and three: "read_unsigned_spec [False, False, True, True] 0 4 = 3"
    by code_simp+
  have fallback:
    "(case List.find (\<lambda>v. get v ''command'' = Some (py_str 9))
             (findall ex_command_profile ''data'') of
        Some v \<Rightarrow> Some v
      | None \<Rightarrow> (case findall ex_command_profile ''data'' of [] \<Rightarrow> None | v # _ \<Rightarrow> Some v))
     = Some (ex_variant ''command'' ''1'')"
    by code_simp
  have matched:
    "(case List.find (\<lambda>v. get v ''command'' = Some (py_str 3))
             (findall ex_command_profile ''data'') of
        Some v \<Rightarrow> Some v
      | None \<Rightarrow> (case findall ex_command_profile ''data'' of [] \<Rightarrow> None | v # _ \<Rightarrow> Some v))
     = Some (ex_variant ''command'' ''3'')"
    by code_simp
  from find_profile_decoded_command [OF ex_eep_lookup field offset sz bounds len9, of None]
    find_profile_decoded_command [OF ex_eep_lookup field offset sz bounds len3, of None]
    nine three fallback matched field offset sz
  show ?thesis by (simp add: ex_eep_lookup)
qed

text \<open>
  C10: for every profile, direction and data bit sequence, a call with the explicit command
  0 returns what the call without a command returns: the branch for an explicit command
  is taken for commands other than zero only.
\<close>

theorem find_profile_command_zero:
  "find_profile self bitarray eep_rorg rorg_func rorg_type direction (Some 0)
   = find_profile self bitarray eep_rorg rorg_func rorg_type direction None"
  by (simp add: find_profile_def truthy_def split: option.splits)

section \<open>Bitfield codec: the claims\<close>

text \<open>
  C4: for every bit sequence, every size from 1 to 32, every offset (a position, so not
  negative) with offset + size not beyond the length, and every unsigned integer
  \<open>v < 2 ^ size\<close>, writing \<open>v\<close> succeeds, reading the field back returns \<open>v\<close>, and every bit
  outside the interval from \<open>offset\<close> to \<open>offset + size\<close> is unchanged.
\<close>

theorem bitfield_write_read:
  assumes "int_attr field ''offset'' = Inr offset" and "int_attr field ''size'' = Inr sz"
    and "0 \<le> offset" and "1 \<le> sz" and "sz \<le> 32" and "offset + sz \<le> int (length bits)"
    and "0 \<le> v" and "v < 2 ^ nat sz"
  shows "\<exists>bits'. set_raw field v bits = Inr bits'
               \<and> get_raw field bits' = Inr v
               \<and> length bits' = length bits
               \<and> (\<forall>j<length bits. j < nat offset \<or> nat (offset + sz) \<le> j
                     \<longrightarrow> bits' ! j = bits ! j)"
proof -
  have fits: "offset + int (nat sz) \<le> int (length bits)" using assms by simp
  from set_raw_loop_upt [OF \<open>0 \<le> offset\<close> fits, of sz v]
  obtain bits' where loop: "set_raw_loop offset sz v (map int [0..<nat sz]) bits = Inr bits'"
    and len: "length bits' = length bits"
    and nth: "\<forall>j<length bits. bits' ! j =
                (if nat offset \<le> j \<and> j < nat offset + nat sz
                 then bit v (nat (sz - int (j - nat offset) - 1)) else bits ! j)"
    by blast
  have written: "set_raw field v bits = Inr bits'"
    using assms(1,2) loop by (simp add: set_raw_def py_range_def)
  have "get_raw field bits' = Inr (read_unsigned_spec bits' (nat offset) (nat sz))"
    using assms(1-4,6) len by (intro get_raw_in_range) simp_all
  also have "read_unsigned_spec bits' (nat offset) (nat sz)
             = (\<Sum>i\<leftarrow>[0..<nat sz]. of_bool (bit v (nat sz - 1 - i)) * 2 ^ (nat sz - 1 - i))"
    unfolding read_unsigned_spec_def
  proof (intro arg_cong [where f = sum_list] map_cong refl)
    fix i assume "i \<in> set [0..<nat sz]"
    then have i: "i < nat sz" by simp
    then have "nat offset + i < length bits" using assms(3,6) by linarith
    moreover have "nat (sz - int i - 1) = nat sz - 1 - i" using i by linarith
    ultimately show "of_bool (bits' ! (nat offset + i)) * (2::int) ^ (nat sz - 1 - i)
                     = of_bool (bit v (nat sz - 1 - i)) * 2 ^ (nat sz - 1 - i)"
      using nth i by simp
  qed
  also have "\<dots> = take_bit (nat sz) v" by (rule msb_first_sum)
  also have "\<dots> = v" using assms(7,8) by (simp add: take_bit_int_eq_self)
  finally have readback: "get_raw field bits' = Inr v" .
  have "\<forall>j<length bits. j < nat offset \<or> nat (offset + sz) \<le> j \<longrightarrow> bits' ! j = bits ! j"
  proof (intro allI impI)
    fix j assume j: "j < length bits" and out: "j < nat offset \<or> nat (offset + sz) \<le> j"
    from out assms(3,4) have outside: "\<not> (nat offset \<le> j \<and> j < nat offset + nat sz)"
      by linarith
    from nth j have "bits' ! j =
        (if nat offset \<le> j \<and> j < nat offset + nat sz
         then bit v (nat (sz - int (j - nat offset) - 1)) else bits ! j)"
      by blast
    with outside show "bits' ! j = bits ! j" by (simp only: if_False)
  qed
  with written readback len show ?thesis by blast
qed

theorem bitfield_write_read_witness:
  "int_attr (ex_field ''2'' ''3'') ''offset'' = Inr 2
   \<and> int_attr (ex_field ''2'' ''3'') ''size'' = Inr 3
   \<and> (0::int) \<le> 2 \<and> (1::int) \<le> 3 \<and> (3::int) \<le> 32
   \<and> 2 + 3 \<le> int (length [True, True, True, True, True, True])
   \<and> (0::int) \<le> 5 \<and> (5::int) < 2 ^ nat 3
   \<and> set_raw (ex_field ''2'' ''3'') 5 [True, True, True, True, True, True]
     = Inr [True, True, True, False, True, True]
   \<and> get_raw (ex_field ''2'' ''3'') [True, True, True, False, True, True] = Inr 5"
proof -
  have offset: "int_attr (ex_field ''2'' ''3'') ''offset'' = Inr 2"
    and sz: "int_attr (ex_field ''2'' ''3'') ''size'' = Inr 3"
    by code_simp+
  have bounds: "(0::int) \<le> 2" "(1::int) \<le> 3" "(3::int) \<le> 32"
    "2 + 3 \<le> int (length [True, True, True, True, True, True])"
    "(0::int) \<le> 5" "(5::int) < 2 ^ nat 3"
    by simp_all
  have written: "set_raw (ex_field ''2'' ''3'') 5 [True, True, True, True, True, True]
                 = Inr [True, True, True, False, True, True]"
    by code_simp
  from bitfield_write_read [OF offset sz bounds] written
  have "get_raw (ex_field ''2'' ''3'') [True, True, True, False, True, True] = Inr 5"
    by auto
  with offset sz written show ?thesis by simp
qed

text \<open>
  C5, as stated, fails for reading: a field of offset 2 and size 4 reaches beyond a
  sequence of four bits, and reading it raises nothing: it returns 3, the value of the
  two bits that are there.
\<close>

theorem get_raw_reads_truncated:
  "int_attr (ex_field ''2'' ''4'') ''offset'' = Inr 2
   \<and> int_attr (ex_field ''2'' ''4'') ''size'' = Inr 4
   \<and> int (length [True, False, True, True]) < 2 + 4
   \<and> get_raw (ex_field ''2'' ''4'') [True, False, True, True] = Inr 3"
proof -
  have "int_attr (ex_field ''2'' ''4'') ''offset'' = Inr 2"
    and "int_attr (ex_field ''2'' ''4'') ''size'' = Inr 4"
    and "get_raw (ex_field ''2'' ''4'') [True, False, True, True] = Inr 3"
    by code_simp+
  then show ?thesis by simp
qed

text \<open>
  C5, amended: when offset + size exceeds the length of the bit sequence, for an offset
  that is not negative and a size of at least 1, writing fails with \<open>IndexError\<close>; reading
  fails, with \<open>ValueError\<close>, only when the offset is at or beyond the end of the sequence,
  and otherwise returns the value of the bits from the offset to the end.  Neither error
  is caught.
\<close>

theorem bitfield_beyond_end:
  assumes "int_attr field ''offset'' = Inr offset" and "int_attr field ''size'' = Inr sz"
    and "0 \<le> offset" and "1 \<le> sz" and "int (length bits) < offset + sz"
  shows "set_raw field v bits = Inl IndexError
       \<and> get_raw field bits
         = (if int (length bits) \<le> offset then Inl ValueError
            else Inr (read_unsigned_spec bits (nat offset) (length bits - nat offset)))"
proof -
  have w: "set_raw field v bits = Inl IndexError"
    using assms by (simp add: set_raw_def py_range_def set_raw_loop_overrun)
  let ?ds = "drop (nat offset) bits"
  have r0: "get_raw field bits = py_int_base2 (join_digits ?ds)"
    using assms by (simp add: get_raw_def py_slice_truncated)
  have r: "py_int_base2 (join_digits ?ds)
           = (if int (length bits) \<le> offset then Inl ValueError
              else Inr (read_unsigned_spec bits (nat offset) (length bits - nat offset)))"
  proof (cases "int (length bits) \<le> offset")
    case True
    then have "?ds = []" by simp
    with True show ?thesis by (simp add: py_int_base2_def join_digits_def)
  next
    case False
    then have inside: "nat offset < length bits" using assms(3) by linarith
    then have ne: "join_digits ?ds \<noteq> []" by (simp add: join_digits_def)
    have "read_unsigned_spec ?ds 0 (length ?ds)
          = read_unsigned_spec bits (nat offset) (length bits - nat offset)"
      unfolding read_unsigned_spec_def
      by (intro arg_cong [where f = sum_list] map_cong refl) simp_all
    with False ne show ?thesis
      by (simp add: py_int_base2_def join_digits_alphabet base2_value)
  qed
  from w r0 r show ?thesis by simp
qed

theorem bitfield_beyond_end_witness:
  "int_attr (ex_field ''1'' ''4'') ''offset'' = Inr 1
   \<and> int_attr (ex_field ''1'' ''4'') ''size'' = Inr 4
   \<and> (0::int) \<le> 1 \<and> (1::int) \<le> 4 \<and> int (length [False, True, False]) < 1 + 4
   \<and> set_raw (ex_field ''1'' ''4'') 9 [False, True, False] = Inl IndexError
   \<and> get_raw (ex_field ''1'' ''4'') [False, True, False] = Inr 2"
proof -
  have offset: "int_attr (ex_field ''1'' ''4'') ''offset'' = Inr 1"
    and sz: "int_attr (ex_field ''1'' ''4'') ''size'' = Inr 4"
    by code_simp+
  have bounds: "(0::int) \<le> 1" "(1::int) \<le> 4" "int (length [False, True, False]) < 1 + 4"
    by simp_all
  have rest: "read_unsigned_spec [False, True, False] (nat 1) (length [False, True, False] - nat 1)
              = 2"
    by code_simp
  from bitfield_beyond_end [OF offset sz bounds, of 9] rest offset sz
  show ?thesis by simp
qed

section \<open>Value transcoder: the claims\<close>

text \<open>
  C6, as stated, fails: in a variant whose enumeration has no description for the raw
  value 3, followed by a status flag that converts, the decode call returns no entry at
  all: it ends with the error of the enumeration.
\<close>

theorem get_values_stops_at_failure:
  "get_values (ex_eep ex_direction_profile) (Some ex_mixed_variant)
       [False, False, True, True] [True]
     = Inl AttributeError
   \<and> get_boolean (ex_status ''X'' ''0'') [True] = Inr (ex_status_entry ''X'' True 1)"
proof -
  have "get_values (ex_eep ex_direction_profile) (Some ex_mixed_variant)
          [False, False, True, True] [True]
        = Inl AttributeError"
    by code_simp
  moreover have "get_boolean (ex_status ''X'' ''0'') [True] = Inr (ex_status_entry ''X'' True 1)"
    by code_simp
  ultimately show ?thesis by simp
qed

text \<open>
  C6, amended: in the batch decode path, a conversion failure on one field ends the decode
  call.  When the fields before it convert, \<open>get_values\<close> returns the error of the first
  field that fails, and no entry of any field.
\<close>

theorem get_values_aborts:
  assumes "init_ok self" and "children variant = before @ field # after"
    and "list_all (\<lambda>s. converts s bitarray status) before"
    and "is_field field" and "decode_field field bitarray status = Inl e"
  shows "get_values self (Some variant) bitarray status = Inl e"
proof -
  from get_values_loop_converts [OF assms(3), of "[]"]
  obtain out1 where "get_values_loop before bitarray status [] = Inr out1" by blast
  then have "get_values_loop (before @ field # after) bitarray status [] = Inl e"
    using assms(4,5) by (simp add: get_values_loop_append get_values_step_field)
  with assms(1,2) show ?thesis by (simp add: get_values_def)
qed

theorem get_values_aborts_witness:
  "init_ok (ex_eep ex_direction_profile)
   \<and> children ex_flagged_variant = [ex_status ''A'' ''0''] @ ex_enum # [ex_status ''X'' ''1'']
   \<and> list_all (\<lambda>s. converts s [False, False, True, True] [True, True]) [ex_status ''A'' ''0'']
   \<and> is_field ex_enum
   \<and> decode_field ex_enum [False, False, True, True] [True, True] = Inl AttributeError
   \<and> get_values (ex_eep ex_direction_profile) (Some ex_flagged_variant)
        [False, False, True, True] [True, True]
     = Inl AttributeError"
proof -
  have shape: "children ex_flagged_variant
               = [ex_status ''A'' ''0''] @ ex_enum # [ex_status ''X'' ''1'']"
    by (simp add: ex_flagged_variant_def)
  have before: "list_all (\<lambda>s. converts s [False, False, True, True] [True, True])
                  [ex_status ''A'' ''0'']"
    by code_simp
  have field: "is_field ex_enum" by code_simp
  have fails: "decode_field ex_enum [False, False, True, True] [True, True] = Inl AttributeError"
    by code_simp
  from get_values_aborts [OF ex_eep_lookup(1) shape before field fails]
    shape before field fails
  show ?thesis by (simp add: ex_eep_lookup)
qed

text \<open>
  C7, as stated, fails: with the range from 0 to 255 and the scale from -40.0 to 0.0, the
  byte 0xFF decodes to 0.0, which is not approximately -40.0.
\<close>

theorem get_value_ff_not_minus_forty:
  "get_value ex_temperature (replicate 8 True)
     = Inr (ex_temperature_entry (Finite 0 (- 1074)) 255)
   \<and> \<not> approximately (VFloat (Finite 0 (- 1074))) (- 40)"
  using ex_temperature_ff by (simp add: approximately_def)

text \<open>
  C7, amended: for the numeric field with offset 0, size 8, range from 0 to 255 and scale
  from -40.0 to 0.0, the byte 0xFF (raw value 255) decodes to a value approximately 0.0
  and the byte 0x00 (raw value 0) to a value approximately -40.0; the value is the linear
  rescale \<open>(scale_max - scale_min) / (range_max - range_min) * (raw - range_min) + scale_min\<close>
  in float arithmetic.
\<close>

theorem get_value_temperature:
  "float_text (ex_bounds ''range'' ''0'' ''255'') ''min'' = Inr (Finite 0 (- 1074))
   \<and> float_text (ex_bounds ''range'' ''0'' ''255'') ''max'' = Inr (Finite (255 * 2 ^ 45) (- 45))
   \<and> float_text (ex_bounds ''scale'' ''-40.0'' ''0.0'') ''min''
     = Inr (Finite (- (40 * 2 ^ 47)) (- 47))
   \<and> float_text (ex_bounds ''scale'' ''-40.0'' ''0.0'') ''max'' = Inr (Finite 0 (- 1074))
   \<and> get_value ex_temperature (replicate 8 True)
     = Inr (ex_temperature_entry (Finite 0 (- 1074)) 255)
   \<and> approximately (VFloat (Finite 0 (- 1074))) 0
   \<and> rescale (Finite 0 (- 1074)) (Finite (255 * 2 ^ 45) (- 45))
        (Finite (- (40 * 2 ^ 47)) (- 47)) (Finite 0 (- 1074)) 255
     = Inr (Finite 0 (- 1074))
   \<and> get_value ex_temperature (replicate 8 False)
     = Inr (ex_temperature_entry (Finite (- 5629499534213120) (- 47)) 0)
   \<and> approximately (VFloat (Finite (- 5629499534213120) (- 47))) (- 40)
   \<and> rescale (Finite 0 (- 1074)) (Finite (255 * 2 ^ 45) (- 45))
        (Finite (- (40 * 2 ^ 47)) (- 47)) (Finite 0 (- 1074)) 0
     = Inr (Finite (- 5629499534213120) (- 47))"
proof -
  have "approximately (VFloat (Finite 0 (- 1074))) 0"
    and "approximately (VFloat (Finite (- 5629499534213120) (- 47))) (- 40)"
    by (simp_all add: approximately_def)
  moreover have "rescale (Finite 0 (- 1074)) (Finite (255 * 2 ^ 45) (- 45))
        (Finite (- (40 * 2 ^ 47)) (- 47)) (Finite 0 (- 1074)) 255
     = Inr (Finite 0 (- 1074))"
    by code_simp
  moreover have "rescale (Finite 0 (- 1074)) (Finite (255 * 2 ^ 45) (- 45))
        (Finite (- (40 * 2 ^ 47)) (- 47)) (Finite 0 (- 1074)) 0
     = Inr (Finite (- 5629499534213120) (- 47))"
    by code_simp
  ultimately show ?thesis
    using ex_temperature_ff ex_temperature_00 ex_temperature_bounds(3-6) by simp
qed

text \<open>
  C8: for every enumerated field whose raw value can be read (the bounds of its range
  items being integers), decoding looks up an item whose declared value is the raw value
  and, if there is none, a range item whose inclusive interval from \<open>start\<close> to \<open>end\<close>
  contains it.  When nothing matches, the result is an error (Python's \<open>AttributeError\<close>),
  not a default.  When an item matches, the value is its description with the raw value in
  the place of the placeholder \<open>{value}\<close>, and the description itself when it has no
  placeholder.
\<close>

theorem get_enum_decodes:
  assumes "get_raw source bitarray = Inr raw"
    and "list_all rangeitem_wellformed (findall source ''rangeitem'')"
  shows "(enum_lookup_spec source raw = None \<longrightarrow> get_enum source bitarray = Inl AttributeError)
       \<and> (\<forall>item pre post.
            enum_lookup_spec source raw = Some item
            \<and> get item ''description'' = Some (pre @ ''{value}'' @ post)
            \<and> no_braces pre \<and> no_braces post \<longrightarrow>
            get_enum source bitarray
            = Inr (get source ''shortcut'',
                   \<lparr>description = get source ''description'',
                    unit = Some (get_or source ''unit'' []),
                    value = VStr (pre @ py_str raw @ post), raw_value = raw\<rparr>))
       \<and> (\<forall>item d.
            enum_lookup_spec source raw = Some item
            \<and> get item ''description'' = Some d \<and> no_braces d \<longrightarrow>
            get_enum source bitarray
            = Inr (get source ''shortcut'',
                   \<lparr>description = get source ''description'',
                    unit = Some (get_or source ''unit'' []),
                    value = VStr d, raw_value = raw\<rparr>))"
  by (simp add: get_enum_lookup [OF assms] describe_def py_format_placeholder [simplified]
      py_format_plain)

theorem get_enum_decodes_witness:
  "get_raw ex_enum [False, True, True, True] = Inr 7
   \<and> list_all rangeitem_wellformed (findall ex_enum ''rangeitem'')
   \<and> enum_lookup_spec ex_enum 7 = Some ex_rangeitem
   \<and> get ex_rangeitem ''description'' = Some (''Mid '' @ ''{value}'' @ [])
   \<and> no_braces ''Mid '' \<and> no_braces []
   \<and> get_enum ex_enum [False, True, True, True] = Inr (ex_enum_entry ''Mid 7'' 7)
   \<and> get_raw ex_enum [False, True, False, True] = Inr 5
   \<and> enum_lookup_spec ex_enum 5 = Some ex_item
   \<and> get ex_item ''description'' = Some ''Open'' \<and> no_braces ''Open''
   \<and> get_enum ex_enum [False, True, False, True] = Inr (ex_enum_entry ''Open'' 5)
   \<and> get_raw ex_enum [False, False, True, True] = Inr 3
   \<and> enum_lookup_spec ex_enum 3 = None
   \<and> get_enum ex_enum [False, False, True, True] = Inl AttributeError"
proof -
  have raw7: "get_raw ex_enum [False, True, True, True] = Inr 7"
    and raw5: "get_raw ex_enum [False, True, False, True] = Inr 5"
    and raw3: "get_raw ex_enum [False, False, True, True] = Inr 3"
    by code_simp+
  have wf: "list_all rangeitem_wellformed (findall ex_enum ''rangeitem'')"
    by code_simp
  have look7: "enum_lookup_spec ex_enum 7 = Some ex_rangeitem"
    and look5: "enum_lookup_spec ex_enum 5 = Some ex_item"
    and look3: "enum_lookup_spec ex_enum 3 = None"
    by code_simp+
  have desc7: "get ex_rangeitem ''description'' = Some (''Mid '' @ ''{value}'' @ [])"
    and desc5: "get ex_item ''description'' = Some ''Open''"
    by code_simp+
  have plain: "no_braces ''Mid ''" "no_braces []" "no_braces ''Open''"
    by code_simp+
  have seven: "py_str 7 = ''7''" by code_simp
  have attrs: "get ex_enum ''shortcut'' = Some ''ST''" "get ex_enum ''description'' = None"
    "get_or ex_enum ''unit'' [] = []"
    by code_simp+
  from get_enum_decodes [OF raw7 wf] look7 desc7 plain
  have "get_enum ex_enum [False, True, True, True]
        = Inr (get ex_enum ''shortcut'',
               \<lparr>description = get ex_enum ''description'',
                unit = Some (get_or ex_enum ''unit'' []),
                value = VStr (''Mid '' @ py_str 7 @ []), raw_value = 7\<rparr>)"
    by blast
  then have e7: "get_enum ex_enum [False, True, True, True] = Inr (ex_enum_entry ''Mid 7'' 7)"
    by (simp add: seven attrs ex_enum_entry_def)
  from get_enum_decodes [OF raw5 wf] look5 desc5 plain
  have "get_enum ex_enum [False, True, False, True]
        = Inr (get ex_enum ''shortcut'',
               \<lparr>description = get ex_enum ''description'',
                unit = Some (get_or ex_enum ''unit'' []),
                value = VStr ''Open'', raw_value = 5\<rparr>)"
    by blast
  then have e5: "get_enum ex_enum [False, True, False, True] = Inr (ex_enum_entry ''Open'' 5)"
    by (simp add: attrs ex_enum_entry_def)
  from get_enum_decodes [OF raw3 wf] look3
  have e3: "get_enum ex_enum [False, False, True, True] = Inl AttributeError"
    by blast
  from raw7 raw5 raw3 wf look7 look5 look3 desc7 desc5 plain e7 e5 e3
  show ?thesis by (simp only: simp_thms)
qed

text \<open>
  C9: when a decode call succeeds, the result holds exactly one entry for the shortcut of
  a field after which no field of the same shortcut is declared, and that entry is the
  conversion of this field: with two or more fields of one shortcut, the last in
  declaration order gives the value.
\<close>

theorem get_values_last_wins:
  assumes "init_ok self"
    and "get_values self (Some variant) bitarray status = Inr (keys, output)"
    and "children variant = before @ field # after"
    and "is_field field"
    and "list_all (other_shortcut (get field ''shortcut'')) after"
  shows "\<exists>d. decode_field field bitarray status = Inr (get field ''shortcut'', d)
            \<and> map_of output (get field ''shortcut'') = Some d
            \<and> length (filter (\<lambda>kd. fst kd = get field ''shortcut'') output) = 1
            \<and> keys = map fst output \<and> distinct keys"
proof -
  let ?k = "get field ''shortcut''"
  from assms(1-3) have loop: "get_values_loop (before @ field # after) bitarray status [] = Inr output"
    and keys: "keys = map fst output"
    by (auto simp: get_values_def split: sum.splits)
  from loop obtain out1 out2 where "get_values_loop before bitarray status [] = Inr out1"
    and step: "get_values_step field bitarray status out1 = Inr out2"
    and rest: "get_values_loop after bitarray status out2 = Inr output"
    by (auto simp: get_values_loop_append split: sum.splits)
  from get_values_step_cases [OF step] assms(4)
  obtain d where d: "decode_field field bitarray status = Inr (?k, d)"
    and out2: "out2 = od_update (?k, d) out1" by blast
  have "map_of output ?k = map_of out2 ?k"
    using rest assms(5) by (rule get_values_loop_keeps)
  with out2 have found: "map_of output ?k = Some d" by (simp add: map_of_od_update)
  have distinct: "distinct (map fst output)"
    using loop by (rule get_values_loop_distinct) simp
  then have "length (filter (\<lambda>kd. fst kd = ?k) output) = 1"
    using found by (rule one_entry)
  with d found keys distinct show ?thesis by blast
qed

theorem get_values_last_wins_witness:
  "init_ok (ex_eep ex_direction_profile)
   \<and> get_values (ex_eep ex_direction_profile) (Some ex_duplicate_variant)
        [False, True, True, True] [False, True]
     = Inr ([Some ''X'', Some ''ST''],
            [ex_status_entry ''X'' True 1, ex_enum_entry ''Mid 7'' 7])
   \<and> children ex_duplicate_variant = [ex_status ''X'' ''0'', ex_enum] @ ex_status ''X'' ''1'' # []
   \<and> is_field (ex_status ''X'' ''1'')
   \<and> list_all (other_shortcut (get (ex_status ''X'' ''1'') ''shortcut'')) []
   \<and> decode_field (ex_status ''X'' ''0'') [False, True, True, True] [False, True]
     = Inr (ex_status_entry ''X'' False 0)
   \<and> decode_field (ex_status ''X'' ''1'') [False, True, True, True] [False, True]
     = Inr (ex_status_entry ''X'' True 1)
   \<and> map_of [ex_status_entry ''X'' True 1, ex_enum_entry ''Mid 7'' 7]
        (get (ex_status ''X'' ''1'') ''shortcut'')
     = Some (snd (ex_status_entry ''X'' True 1))"
proof -
  have decoded: "get_values (ex_eep ex_direction_profile) (Some ex_duplicate_variant)
                   [False, True, True, True] [False, True]
                 = Inr ([Some ''X'', Some ''ST''],
                        [ex_status_entry ''X'' True 1, ex_enum_entry ''Mid 7'' 7])"
    by code_simp
  have shape: "children ex_duplicate_variant
               = [ex_status ''X'' ''0'', ex_enum] @ ex_status ''X'' ''1'' # []"
    by (simp add: ex_duplicate_variant_def)
  have field: "is_field (ex_status ''X'' ''1'')" by code_simp
  have last: "list_all (other_shortcut (get (ex_status ''X'' ''1'') ''shortcut'')) []"
    by simp
  have first: "decode_field (ex_status ''X'' ''0'') [False, True, True, True] [False, True]
               = Inr (ex_status_entry ''X'' False 0)"
    and second: "decode_field (ex_status ''X'' ''1'') [False, True, True, True] [False, True]
                 = Inr (ex_status_entry ''X'' True 1)"
    by code_simp+
  from get_values_last_wins [OF ex_eep_lookup(1) decoded shape field last] second
  have "map_of [ex_status_entry ''X'' True 1, ex_enum_entry ''Mid 7'' 7]
          (get (ex_status ''X'' ''1'') ''shortcut'')
        = Some (snd (ex_status_entry ''X'' True 1))"
    by auto
  with decoded shape field last first second show ?thesis
    by (simp only: ex_eep_lookup simp_thms)
qed

end
